theory Spec2Isabelle
  imports Complex_Main "HOL-Library.Word"
begin

unbundle bit_operations_syntax

section \<open>Errors and sequencing\<close>

text \<open>
  The sources use the \<open>assert\<close> family of macros, which abort in assert-enabled
  builds and vanish otherwise. Every function that contains one takes the build flavour
  as its first argument \<open>dbg\<close> (\<open>True\<close>: assertions are compiled in). A failed
  assertion is the value \<open>Inl AssertFail\<close>. A division by zero, a read or write
  outside a buffer and a signed-integer operation whose result is not representable are
  undefined behaviour in either flavour and are kept apart as \<open>DivByZero\<close>,
  \<open>OutOfBounds\<close> and \<open>SignedOverflow\<close>.
\<close>

datatype error = AssertFail | DivByZero | OutOfBounds | SignedOverflow

definition bindE :: "error + 'a \<Rightarrow> ('a \<Rightarrow> error + 'b) \<Rightarrow> error + 'b" where
  "bindE x f = (case x of Inl e \<Rightarrow> Inl e | Inr v \<Rightarrow> f v)"

definition assertE :: "bool \<Rightarrow> bool \<Rightarrow> error + 'a \<Rightarrow> error + 'a" where
  "assertE dbg cond k = (if dbg \<and> \<not> cond then Inl AssertFail else k)"

section \<open>The SSE matrix (aligner\_swsse.h)\<close>

text \<open>
  \<open>struct SSEMatrix\<close>. The vector buffer \<open>bufal\<close> (an array of 128-bit vectors
  that the code reads through byte and 16-bit pointers) is a flat list of bytes, vector
  \<open>v\<close> occupying bytes \<open>16 * v .. 16 * v + 15\<close>; \<open>masks\<close> is the list of 16-bit
  annotation words, one per cell. Sizes and indices (\<open>size_t\<close>) are naturals.
  The field names drop the trailing underscore of the C++ members.
\<close>

record SSEMatrix =
  inited :: bool
  nrow :: nat
  ncol :: nat
  nvecrow :: nat
  nveccol :: nat
  wperv :: nat
  vecshift :: nat
  nvecPerCol :: nat
  nvecPerCell :: nat
  colstride :: nat
  rowstride :: nat
  bufal :: "8 word list"
  masks :: "16 word list"

subsection \<open>Mask words\<close>

text \<open>
  A mask word is a \<open>uint16_t\<close>. In an expression it is promoted to \<open>int\<close>
  (\<open>uint\<close>), the bitwise operation is done on \<open>int\<close>, and a compound assignment
  truncates the result back to 16 bits (\<open>word_of_int\<close>). A C++ variable called
  \<open>mask\<close> is written \<open>msk\<close>.
\<close>

definition mask_at :: "SSEMatrix \<Rightarrow> nat \<Rightarrow> nat \<Rightarrow> error + 16 word" where
  "mask_at m row col =
     (let i = row * ncol m + col
      in if i < length (masks m) then Inr (masks m ! i) else Inl OutOfBounds)"

definition mask_update :: "SSEMatrix \<Rightarrow> nat \<Rightarrow> nat \<Rightarrow> (16 word \<Rightarrow> 16 word) \<Rightarrow> error + SSEMatrix" where
  "mask_update m row col f =
     (let i = row * ncol m + col
      in if i < length (masks m)
         then Inr (m\<lparr>masks := (masks m)[i := f (masks m ! i)]\<rparr>)
         else Inl OutOfBounds)"

text \<open>\<open>w &= a\<close> and \<open>w |= a\<close> on a \<open>uint16_t\<close> lvalue with an \<open>int\<close> operand.\<close>

definition and_assign :: "16 word \<Rightarrow> int \<Rightarrow> 16 word" where
  "and_assign w a = word_of_int (uint w AND a)"

definition or_assign :: "16 word \<Rightarrow> int \<Rightarrow> 16 word" where
  "or_assign w a = word_of_int (uint w OR a)"

text \<open>\<open>reportedThrough\<close>: \<open>(masks_[row * ncol_ + col] & (1 << 0)) != 0\<close>.\<close>

definition reportedThrough :: "SSEMatrix \<Rightarrow> nat \<Rightarrow> nat \<Rightarrow> error + bool" where
  "reportedThrough m row col =
     bindE (mask_at m row col) (\<lambda>w. Inr ((uint w AND push_bit 0 1) \<noteq> 0))"

text \<open>\<open>setReportedThrough\<close>: \<open>masks_[row * ncol_ + col] |= (1 << 0)\<close>.\<close>

definition setReportedThrough :: "SSEMatrix \<Rightarrow> nat \<Rightarrow> nat \<Rightarrow> error + SSEMatrix" where
  "setReportedThrough m row col = mask_update m row col (\<lambda>w. or_assign w (push_bit 0 1))"

text \<open>\<open>isHMaskSet\<close>, \<open>isEMaskSet\<close>, \<open>isFMaskSet\<close>: bits 1, 7 and 10.\<close>

definition isHMaskSet :: "SSEMatrix \<Rightarrow> nat \<Rightarrow> nat \<Rightarrow> error + bool" where
  "isHMaskSet m row col =
     bindE (mask_at m row col) (\<lambda>w. Inr ((uint w AND push_bit 1 1) \<noteq> 0))"

definition isEMaskSet :: "SSEMatrix \<Rightarrow> nat \<Rightarrow> nat \<Rightarrow> error + bool" where
  "isEMaskSet m row col =
     bindE (mask_at m row col) (\<lambda>w. Inr ((uint w AND push_bit 7 1) \<noteq> 0))"

definition isFMaskSet :: "SSEMatrix \<Rightarrow> nat \<Rightarrow> nat \<Rightarrow> error + bool" where
  "isFMaskSet m row col =
     bindE (mask_at m row col) (\<lambda>w. Inr ((uint w AND push_bit 10 1) \<noteq> 0))"

text \<open>
  \<open>hMaskSet\<close>:
  \<^verbatim>\<open>assert_lt(mask, 32);
  masks_[row * ncol_ + col] &= ~(31 << 1);
  masks_[row * ncol_ + col] |= (1 << 1 | mask << 2);\<close>
\<close>

definition hMaskWord :: "16 word \<Rightarrow> int \<Rightarrow> 16 word" where
  "hMaskWord w msk =
     or_assign (and_assign w (NOT (push_bit 1 31))) (push_bit 1 1 OR push_bit 2 msk)"

definition hMaskSet :: "bool \<Rightarrow> SSEMatrix \<Rightarrow> nat \<Rightarrow> nat \<Rightarrow> int \<Rightarrow> error + SSEMatrix" where
  "hMaskSet dbg m row col msk =
     assertE dbg (msk < 32) (mask_update m row col (\<lambda>w. hMaskWord w msk))"

text \<open>
  \<open>eMaskSet\<close>:
  \<^verbatim>\<open>assert_lt(mask, 4);
  masks_[row * ncol_ + col] &= ~(7 << 7);
  masks_[row * ncol_ + col] |=  (1 << 7 | mask << 8);\<close>
\<close>

definition eMaskWord :: "16 word \<Rightarrow> int \<Rightarrow> 16 word" where
  "eMaskWord w msk =
     or_assign (and_assign w (NOT (push_bit 7 7))) (push_bit 7 1 OR push_bit 8 msk)"

definition eMaskSet :: "bool \<Rightarrow> SSEMatrix \<Rightarrow> nat \<Rightarrow> nat \<Rightarrow> int \<Rightarrow> error + SSEMatrix" where
  "eMaskSet dbg m row col msk =
     assertE dbg (msk < 4) (mask_update m row col (\<lambda>w. eMaskWord w msk))"

text \<open>
  \<open>fMaskSet\<close>:
  \<^verbatim>\<open>assert_lt(mask, 4);
  masks_[row * ncol_ + col] &= ~(7 << 10);
  masks_[row * ncol_ + col] |=  (1 << 10 | mask << 11);\<close>
\<close>

definition fMaskWord :: "16 word \<Rightarrow> int \<Rightarrow> 16 word" where
  "fMaskWord w msk =
     or_assign (and_assign w (NOT (push_bit 10 7))) (push_bit 10 1 OR push_bit 11 msk)"

definition fMaskSet :: "bool \<Rightarrow> SSEMatrix \<Rightarrow> nat \<Rightarrow> nat \<Rightarrow> int \<Rightarrow> error + SSEMatrix" where
  "fMaskSet dbg m row col msk =
     assertE dbg (msk < 4) (mask_update m row col (\<lambda>w. fMaskWord w msk))"

text \<open>
  The stored masks as \<open>analyzeCell\<close> reads them back:
  \<open>(masks_[row * ncol_ + col] >> 2) & 31\<close>, \<open>(... >> 8) & 3\<close> and \<open>(... >> 11) & 3\<close>.
\<close>

definition hMaskField :: "16 word \<Rightarrow> int" where
  "hMaskField w = drop_bit 2 (uint w) AND 31"

definition eMaskField :: "16 word \<Rightarrow> int" where
  "eMaskField w = drop_bit 8 (uint w) AND 3"

definition fMaskField :: "16 word \<Rightarrow> int" where
  "fMaskField w = drop_bit 11 (uint w) AND 3"


section \<open>The scoring scheme (scoring.cpp)\<close>

text \<open>
  \<open>class Scoring\<close>, the members that the functions below read. Its declaration
  (scoring.h) is not among the files modelled here, so the gap costs are the values that the
  accessors \<open>readGapOpen()\<close>, \<open>readGapExtend()\<close>, \<open>refGapOpen()\<close> and
  \<open>refGapExtend()\<close> return, and \<open>score\<close> is the member function
  \<open>score(readc, refc, q)\<close>. The members are the integers they denote. The cell
  analysis compares and adds scores (\<open>TAlScore\<close>) as integers; \<open>maxReadGaps\<close> and
  \<open>maxRefGaps\<close> below compute in \<open>size_t\<close>, \<open>int64_t\<close> and \<open>int\<close>, whose
  ranges are modelled.

  The N ceiling is \<open>float\<close> arithmetic. A finite binary32 value is the real number it
  denotes, and every \<open>float\<close> operation is the exact operation followed by the rounding
  \<open>rnd\<close> to a representable value, which the functions take as an argument; the
  rounding of binary32 itself is \<open>f32_round\<close> below.
\<close>

record Scoring =
  match :: int
  readGapOpen :: int
  readGapExtend :: int
  refGapOpen :: int
  refGapExtend :: int
  gapbar :: int
  nCeilConst :: real
  nCeilLinear :: real
  ncatpair :: bool
  score :: "int \<Rightarrow> int \<Rightarrow> int \<Rightarrow> int"

subsection \<open>maxReadGaps and maxRefGaps\<close>

text \<open>
  The ranges of \<open>int64_t\<close> (the running score \<open>sc\<close>) and of \<open>int\<close> (the counter
  \<open>num\<close> and the result; 32 bits). A value of either type is the integer it denotes, and
  an operation whose result lies outside the range is \<open>Inl SignedOverflow\<close>.
\<close>

definition in_int64 :: "int \<Rightarrow> bool" where
  "in_int64 x \<longleftrightarrow> - (2 ^ 63) \<le> x \<and> x < 2 ^ 63"

definition in_int32 :: "int \<Rightarrow> bool" where
  "in_int32 x \<longleftrightarrow> - (2 ^ 31) \<le> x \<and> x < 2 ^ 31"

text \<open>
  \<^verbatim>\<open>while(sc >= minsc) {
    sc -= match;
    if(first) { first = false; sc -= readGapOpen(); }
    else      { sc -= readGapExtend(); }
    num++;
  }\<close>
  The result is the counter at exit. The loop of the model always ends: a loop that charges
  nothing per iteration runs until \<open>num++\<close> overflows.
\<close>

function maxReadGaps_loop :: "Scoring \<Rightarrow> int \<Rightarrow> int \<Rightarrow> bool \<Rightarrow> int \<Rightarrow> error + int" where
  "maxReadGaps_loop s minsc sc first num =
     (if sc \<ge> minsc
      then (if \<not> in_int64 (sc - match s) then Inl SignedOverflow
            else if \<not> in_int64 (sc - match s - (if first then readGapOpen s else readGapExtend s))
            then Inl SignedOverflow
            else if \<not> in_int32 (num + 1) then Inl SignedOverflow
            else maxReadGaps_loop s minsc
                   (sc - match s - (if first then readGapOpen s else readGapExtend s)) False (num + 1))
      else Inr num)"
  by pat_completeness auto

termination
  by (relation "measure (\<lambda>(s, minsc, sc, first, num). nat (2 ^ 31 - num))")
    (auto simp add: in_int32_def)

declare maxReadGaps_loop.simps [simp del]

text \<open>
  \<^verbatim>\<open>int64_t sc = (int64_t)(rdlen * match);
  assert_geq(sc, minsc);
  bool first = true; int num = 0;
  while ...
  assert_gt(num, 0);
  return num-1;\<close>
  \<open>rdlen\<close> is a \<open>size_t\<close>, so \<open>match\<close> is converted to \<open>size_t\<close> and the product
  is taken modulo \<open>2^64\<close>; the cast reads the 64 bits as a two's-complement number.
\<close>

definition maxReadGaps :: "bool \<Rightarrow> Scoring \<Rightarrow> int \<Rightarrow> 64 word \<Rightarrow> error + int" where
  "maxReadGaps dbg s minsc rdlen =
     (let sc = sint (rdlen * word_of_int (match s))
      in assertE dbg (sc \<ge> minsc)
           (bindE (maxReadGaps_loop s minsc sc True 0) (\<lambda>num.
            assertE dbg (num > 0) (Inr (num - 1)))))"

text \<open>
  The loop of \<open>maxRefGaps\<close>:
  \<^verbatim>\<open>while(sc >= minsc) {
    if(first) { first = false; sc -= refGapOpen(); }
    else      { sc -= refGapExtend(); }
    num++;
  }\<close>
\<close>

function maxRefGaps_loop :: "Scoring \<Rightarrow> int \<Rightarrow> int \<Rightarrow> bool \<Rightarrow> int \<Rightarrow> error + int" where
  "maxRefGaps_loop s minsc sc first num =
     (if sc \<ge> minsc
      then (if \<not> in_int64 (sc - (if first then refGapOpen s else refGapExtend s))
            then Inl SignedOverflow
            else if \<not> in_int32 (num + 1) then Inl SignedOverflow
            else maxRefGaps_loop s minsc
                   (sc - (if first then refGapOpen s else refGapExtend s)) False (num + 1))
      else Inr num)"
  by pat_completeness auto

termination
  by (relation "measure (\<lambda>(s, minsc, sc, first, num). nat (2 ^ 31 - num))")
    (auto simp add: in_int32_def)

declare maxRefGaps_loop.simps [simp del]

definition maxRefGaps :: "bool \<Rightarrow> Scoring \<Rightarrow> int \<Rightarrow> 64 word \<Rightarrow> error + int" where
  "maxRefGaps dbg s minsc rdlen =
     (let sc = sint (rdlen * word_of_int (match s))
      in assertE dbg (sc \<ge> minsc)
           (bindE (maxRefGaps_loop s minsc sc True 0) (\<lambda>num.
            assertE dbg (num > 0) (Inr (num - 1)))))"

text \<open>
  The algorithm in the words of the specification, for comparison, on mathematical
  integers: start from \<open>sc = read_len * match\<close>; repeatedly subtract one \<open>match\<close> and
  then either the open cost (first gap) or the extend cost (subsequent gaps) until
  \<open>sc < min_score\<close>; return \<open>count - 1\<close>. The amount subtracted per gap besides the gap
  cost is the parameter \<open>mtch\<close>. \<open>None\<close> is a loop that never exits.
\<close>

partial_function (option) spec_count_gaps :: "int \<Rightarrow> int \<Rightarrow> int \<Rightarrow> int \<Rightarrow> int \<Rightarrow> int \<Rightarrow> int option" where
  "spec_count_gaps mtch gopen gext min_score sc count =
     (if sc < min_score then Some count
      else spec_count_gaps mtch gopen gext min_score
             (sc - mtch - (if count = 0 then gopen else gext)) (count + 1))"

definition spec_max_gaps :: "int \<Rightarrow> int \<Rightarrow> int \<Rightarrow> int \<Rightarrow> int \<Rightarrow> int option" where
  "spec_max_gaps mtch gopen gext sc0 min_score =
     map_option (\<lambda>count. count - 1) (spec_count_gaps mtch gopen gext min_score sc0 0)"

text \<open>
  The score of an alignment of a read of \<open>rdlen\<close> bases in which every aligned base
  matches and there are \<open>k\<close> read gaps:
  \<open>rdlen * match - k * match - (readGapOpen + (k - 1) * readGapExtend)\<close> for
  \<open>k \<ge> 1\<close>, and \<open>rdlen * match\<close> for \<open>k = 0\<close>.
\<close>

definition read_gaps_score :: "Scoring \<Rightarrow> nat \<Rightarrow> int \<Rightarrow> int" where
  "read_gaps_score s rdlen k =
     (if k = 0 then int rdlen * match s
      else int rdlen * match s - k * match s - (readGapOpen s + (k - 1) * readGapExtend s))"

subsection \<open>nFilter and nFilterPair\<close>

text \<open>The three \<open>float\<close> operations of the filter and the conversion from \<open>size_t\<close>.\<close>

definition f32_add :: "(real \<Rightarrow> real) \<Rightarrow> real \<Rightarrow> real \<Rightarrow> real" where
  "f32_add rnd a b = rnd (a + b)"

definition f32_mul :: "(real \<Rightarrow> real) \<Rightarrow> real \<Rightarrow> real \<Rightarrow> real" where
  "f32_mul rnd a b = rnd (a * b)"

definition f32_of_size :: "(real \<Rightarrow> real) \<Rightarrow> nat \<Rightarrow> real" where
  "f32_of_size rnd n = rnd (real n)"

text \<open>
  A read (\<open>BTDnaString\<close>) is the list of its base codes, 4 being N.
  \<^verbatim>\<open>for(size_t i = 0; i < rdlen; i++) {
    if(rd[i] == 4) {
      ns += 1.0f;
      if(ns > maxns) return false; // doesn't pass
    }
  }
  return true; // passes\<close>
\<close>

fun nFilter_loop :: "(real \<Rightarrow> real) \<Rightarrow> real \<Rightarrow> real \<Rightarrow> 8 word list \<Rightarrow> bool" where
  "nFilter_loop rnd maxns ns [] = True"
| "nFilter_loop rnd maxns ns (b # bs) =
     (if b = 4
      then (if f32_add rnd ns 1 > maxns then False
            else nFilter_loop rnd maxns (f32_add rnd ns 1) bs)
      else nFilter_loop rnd maxns ns bs)"

text \<open>
  \<open>nCeil_f32\<close> is the \<open>float\<close> expression \<open>nCeilConst + nCeilLinear * n\<close> for a
  \<open>size_t\<close> \<open>n\<close>.
  \<^verbatim>\<open>float ns = 0.0f;
  size_t rdlen = rd.length();
  float maxns = nCeilConst + nCeilLinear * rdlen;
  if(maxns < 0.0f) maxns = 0.0f;
  assert_gt(rd.length(), 0);
  for ...\<close>
\<close>

definition nCeil_f32 :: "(real \<Rightarrow> real) \<Rightarrow> Scoring \<Rightarrow> nat \<Rightarrow> real" where
  "nCeil_f32 rnd s n = f32_add rnd (nCeilConst s) (f32_mul rnd (nCeilLinear s) (f32_of_size rnd n))"

definition nFilter_maxns :: "(real \<Rightarrow> real) \<Rightarrow> Scoring \<Rightarrow> nat \<Rightarrow> real" where
  "nFilter_maxns rnd s rdlen =
     (let maxns = nCeil_f32 rnd s rdlen
      in if maxns < 0 then 0 else maxns)"

definition nFilter :: "bool \<Rightarrow> (real \<Rightarrow> real) \<Rightarrow> Scoring \<Rightarrow> 8 word list \<Rightarrow> error + bool" where
  "nFilter dbg rnd s rd =
     (let rdlen = length rd;
          maxns = nFilter_maxns rnd s rdlen
      in assertE dbg (length rd > 0) (Inr (nFilter_loop rnd maxns 0 rd)))"

text \<open>
  One of the two loops of \<open>nFilterPair\<close>; \<open>None\<close> is the early \<open>return\<close>,
  \<open>Some ns\<close> the counter (a \<open>size_t\<close>) after the loop.
  \<^verbatim>\<open>for(size_t i = 0; i < rdlen1; i++) {
    if((*rd1)[i] == 4) ns++;
    if((float)ns > maxns) {
      // doesn't pass
      return;
    }
  }\<close>
\<close>

fun nFilterPair_loop :: "(real \<Rightarrow> real) \<Rightarrow> real \<Rightarrow> nat \<Rightarrow> 8 word list \<Rightarrow> nat option" where
  "nFilterPair_loop rnd maxns ns [] = Some ns"
| "nFilterPair_loop rnd maxns ns (b # bs) =
     (let ns' = (if b = 4 then ns + 1 else ns)
      in if f32_of_size rnd ns' > maxns then None
         else nFilterPair_loop rnd maxns ns' bs)"

definition nFilterPair_maxns :: "(real \<Rightarrow> real) \<Rightarrow> Scoring \<Rightarrow> nat \<Rightarrow> nat \<Rightarrow> real" where
  "nFilterPair_maxns rnd s rdlen1 rdlen2 = nCeil_f32 rnd s (rdlen1 + rdlen2)"

text \<open>
  \<open>nFilterPair\<close>; a null pointer is \<open>None\<close>, and the result is the pair
  \<open>(filt1, filt2)\<close> that the function leaves in its two reference parameters.
\<close>

definition nFilterPair ::
  "bool \<Rightarrow> (real \<Rightarrow> real) \<Rightarrow> Scoring \<Rightarrow> 8 word list option \<Rightarrow> 8 word list option \<Rightarrow> error + (bool \<times> bool)" where
  "nFilterPair dbg rnd s rd1 rd2 =
     (case (rd1, rd2, ncatpair s) of
        (Some r1, Some r2, True) \<Rightarrow>
          (let maxns = nFilterPair_maxns rnd s (length r1) (length r2)
           in case nFilterPair_loop rnd maxns 0 r1 of
                None \<Rightarrow> Inr (False, False)
              | Some ns1 \<Rightarrow>
                  (case nFilterPair_loop rnd maxns ns1 r2 of
                     None \<Rightarrow> Inr (False, False)
                   | Some ns2 \<Rightarrow> Inr (True, True)))
      | _ \<Rightarrow>
          bindE (case rd1 of None \<Rightarrow> Inr False | Some r1 \<Rightarrow> nFilter dbg rnd s r1) (\<lambda>filt1.
          bindE (case rd2 of None \<Rightarrow> Inr False | Some r2 \<Rightarrow> nFilter dbg rnd s r2) (\<lambda>filt2.
          Inr (filt1, filt2))))"


text \<open>The number of Ns of a read, and the exactness of binary32 on the integers up to \<open>2^24\<close>.\<close>

definition count_Ns :: "8 word list \<Rightarrow> nat" where
  "count_Ns rd = length (filter (\<lambda>b. b = 4) rd)"

definition f32_exact :: "(real \<Rightarrow> real) \<Rightarrow> bool" where
  "f32_exact rnd \<longleftrightarrow> (\<forall>n \<le> 2 ^ 24. rnd (real n) = real n)"

text \<open>
  The rounding of binary32 (IEEE 754 round to nearest, ties to even): a real \<open>x\<close> with
  \<open>2^e \<le> |x| < 2^(e+1)\<close> is rounded to the nearest multiple of \<open>2^(e - 23)\<close> (24
  significant bits), and below the normal range (\<open>e < -126\<close>) to the nearest multiple of
  \<open>2^(-149)\<close>. Results beyond the largest finite binary32 value are not modelled.
\<close>

definition round_half_even :: "real \<Rightarrow> int" where
  "round_half_even y =
     (let f = \<lfloor>y\<rfloor>; d = y - of_int f
      in if d < 1 / 2 then f else if 1 / 2 < d then f + 1 else if even f then f else f + 1)"

definition f32_round :: "real \<Rightarrow> real" where
  "f32_round x =
     (if x = 0 then 0
      else let e = max \<lfloor>log 2 \<bar>x\<bar>\<rfloor> (- 126);
               u = 2 powr (of_int e - 23)
           in u * of_int (round_half_even (x / u)))"

section \<open>Matrix elements\<close>

text \<open>
  The quartet members \<open>SSEMatrix::E\<close>, \<open>F\<close>, \<open>H\<close> and \<open>TMP\<close>.
\<close>

definition SSEMatrix_E :: nat where "SSEMatrix_E = 0"
definition SSEMatrix_F :: nat where "SSEMatrix_F = 1"
definition SSEMatrix_H :: nat where "SSEMatrix_H = 2"
definition SSEMatrix_TMP :: nat where "SSEMatrix_TMP = 3"

text \<open>
  \<open>(int)((uint8_t*)&bufal_[eltvec])[rowelt]\<close> reads the byte at offset
  \<open>16 * eltvec + rowelt\<close> of the buffer, and
  \<open>(int)((int16_t*)&bufal_[eltvec])[rowelt]\<close> the two bytes at offset
  \<open>16 * eltvec + 2 * rowelt\<close>, low byte first, as a signed value.
\<close>

definition read_u8 :: "8 word list \<Rightarrow> nat \<Rightarrow> error + int" where
  "read_u8 buf a = (if a < length buf then Inr (uint (buf ! a)) else Inl OutOfBounds)"

definition read_i16 :: "8 word list \<Rightarrow> nat \<Rightarrow> error + int" where
  "read_i16 buf a =
     (if a + 1 < length buf
      then Inr (sint (word_cat (buf ! (a + 1)) (buf ! a) :: 16 word))
      else Inl OutOfBounds)"

text \<open>
  \<open>elt\<close>:
  \<^verbatim>\<open>assert(inited_);
  assert_lt(row, nrow_);
  assert_lt(col, ncol_);
  assert_lt(mat, 3);
  size_t rowelt = row / nvecrow_;
  size_t rowvec = row % nvecrow_;
  size_t eltvec = (col * colstride_) + (rowvec * rowstride_) + mat;
  if(wperv_ == 16) {
    return (int)((uint8_t*)&bufal_[eltvec])[rowelt];
  } else {
    assert_eq(8, wperv_);
    return (int)((int16_t*)&bufal_[eltvec])[rowelt];
  }\<close>
\<close>

definition elt :: "bool \<Rightarrow> SSEMatrix \<Rightarrow> nat \<Rightarrow> nat \<Rightarrow> nat \<Rightarrow> error + int" where
  "elt dbg m row col mat =
     assertE dbg (inited m)
    (assertE dbg (row < nrow m)
    (assertE dbg (col < ncol m)
    (assertE dbg (mat < 3)
    (if nvecrow m = 0 then Inl DivByZero
     else (let rowelt = row div nvecrow m;
               rowvec = row mod nvecrow m;
               eltvec = (col * colstride m) + (rowvec * rowstride m) + mat
           in if wperv m = 16 then read_u8 (bufal m) (16 * eltvec + rowelt)
              else assertE dbg (8 = wperv m) (read_i16 (bufal m) (16 * eltvec + 2 * rowelt)))))))"

definition eelt :: "bool \<Rightarrow> SSEMatrix \<Rightarrow> nat \<Rightarrow> nat \<Rightarrow> error + int" where
  "eelt dbg m row col = elt dbg m row col SSEMatrix_E"

definition felt :: "bool \<Rightarrow> SSEMatrix \<Rightarrow> nat \<Rightarrow> nat \<Rightarrow> error + int" where
  "felt dbg m row col = elt dbg m row col SSEMatrix_F"

definition helt :: "bool \<Rightarrow> SSEMatrix \<Rightarrow> nat \<Rightarrow> nat \<Rightarrow> error + int" where
  "helt dbg m row col = elt dbg m row col SSEMatrix_H"

subsection \<open>The striped layout in the words of the specification\<close>

text \<open>
  The specification maps a logical row to \<open>(striped_index, lane) = (row mod S, row / S)\<close>
  and lays a column out as \<open>S\<close> consecutive quartets of vectors \<open>E, F, H, RESERVED\<close>,
  the columns being contiguous.
\<close>

definition striped_pos :: "nat \<Rightarrow> nat \<Rightarrow> nat \<times> nat" where
  "striped_pos S row = (row mod S, row div S)"

definition quartet_vec :: "nat \<Rightarrow> nat \<Rightarrow> nat \<Rightarrow> nat \<Rightarrow> nat" where
  "quartet_vec S col v slot = (col * S + v) * 4 + slot"

definition vec_bytes :: "8 word list \<Rightarrow> nat \<Rightarrow> 8 word list" where
  "vec_bytes buf i = take 16 (drop (16 * i) buf)"

definition lane_u8 :: "8 word list \<Rightarrow> nat \<Rightarrow> int" where
  "lane_u8 vec l = uint (vec ! l)"

definition lane_i16 :: "8 word list \<Rightarrow> nat \<Rightarrow> int" where
  "lane_i16 vec l = sint (word_cat (vec ! (2 * l + 1)) (vec ! (2 * l)) :: 16 word)"

text \<open>
  Modelled from the spec: the state that \<open>SSEMatrix::init\<close> establishes (the function
  is declared in the header; its definition is missing). The number of
  striped rows is \<open>nvecrow = \<lceil>nrow / wperv\<rceil>\<close> with \<open>wperv\<close> 8 or 16, the stride between
  consecutive columns is \<open>nvecrow * 4\<close> vectors, between consecutive striped rows \<open>4\<close>
  vectors, and the buffer holds all the columns.
\<close>

definition layout_ok :: "SSEMatrix \<Rightarrow> bool" where
  "layout_ok m \<longleftrightarrow>
     inited m \<and> (wperv m = 8 \<or> wperv m = 16) \<and>
     nvecrow m = (nrow m + (wperv m - 1)) div wperv m \<and>
     nvecPerCell m = 4 \<and>
     colstride m = nvecrow m * 4 \<and> rowstride m = 4 \<and>
     16 * (ncol m * colstride m) \<le> length (bufal m)"

text \<open>
  Modelled from the spec: \<open>SSEMatrix::initMasks\<close> (declared in the header, its definition
  missing) zeroes the entire array of mask words, one word per cell.
\<close>

definition initMasks :: "SSEMatrix \<Rightarrow> SSEMatrix" where
  "initMasks m = m\<lparr>masks := replicate (nrow m * ncol m) 0\<rparr>"


section \<open>Cell analysis (SSEMatrix::analyzeCell)\<close>

text \<open>
  The text of \<open>analyzeCell\<close> in aligner\_swsse.h, which the header keeps between
  \<open>#if 0\<close> and \<open>#endif\<close>. The transition tags \<open>SW_BT_...\<close> are an enumeration
  declared elsewhere; only their names are used.
\<close>

datatype sw_bt =
    SW_BT_OALL_DIAG
  | SW_BT_OALL_REF_OPEN
  | SW_BT_OALL_READ_OPEN
  | SW_BT_RDGAP_EXTEND
  | SW_BT_RFGAP_EXTEND

text \<open>
  The five reference parameters \<open>empty\<close>, \<open>cur\<close>, \<open>branch\<close>, \<open>canMoveThru\<close> and
  \<open>reportedThru\<close>. The function does not assign all of them on every path, so it takes
  the values they hold at the call and returns the values they hold at the return.
\<close>

record cell_out =
  out_empty :: bool
  out_cur :: sw_bt
  out_branch :: bool
  out_canMoveThru :: bool
  out_reportedThru :: bool

text \<open>
  \<open>RandomSource\<close> and \<open>randFromMask\<close> are defined in files not modelled here: the
  generator is a state of some type \<open>'r\<close>, and \<open>rand.nextU2()\<close> and
  \<open>randFromMask(rand, mask)\<close> are functions that return a value and the next state.
\<close>

record 'r rand_ops =
  nextU2 :: "'r \<Rightarrow> nat \<times> 'r"
  randFromMask :: "'r \<Rightarrow> int \<Rightarrow> nat \<times> 'r"

text \<open>
  Modelled from the spec: the tables \<open>alts5\<close> and \<open>firsts5\<close> (mask.h is missing) are the popcount of a 5-bit mask and the index of its lowest set bit;
  \<open>firsts5\<close> of the empty mask is taken as \<open>-1\<close>.
\<close>

definition alts5 :: "int \<Rightarrow> int" where
  "alts5 msk = of_bool (bit msk 0) + of_bool (bit msk 1) + of_bool (bit msk 2)
             + of_bool (bit msk 3) + of_bool (bit msk 4)"

definition firsts5 :: "int \<Rightarrow> int" where
  "firsts5 msk =
     (if bit msk 0 then 0 else if bit msk 1 then 1 else if bit msk 2 then 2
      else if bit msk 3 then 3 else if bit msk 4 then 4 else - 1)"

text \<open>Subtraction of \<open>size_t\<close> values, which wraps, and the cast \<open>(size_t)i\<close> of an \<open>int\<close>.\<close>

definition size_t_sub :: "nat \<Rightarrow> nat \<Rightarrow> nat" where
  "size_t_sub a b = (if b \<le> a then a - b else 2 ^ 64 + a - b)"

definition size_t_of_int :: "int \<Rightarrow> nat" where
  "size_t_of_int i = nat (i mod 2 ^ 64)"

text \<open>
  \<^verbatim>\<open>size_t rowFromEnd = nrow_ - row - 1;
  bool gapsAllowed = true;
  if(row < (size_t)sc.gapbar || rowFromEnd < (size_t)sc.gapbar) {
    gapsAllowed = false;
  }\<close>
\<close>

definition gapsAllowed :: "Scoring \<Rightarrow> SSEMatrix \<Rightarrow> nat \<Rightarrow> bool" where
  "gapsAllowed sc m row =
     (let rowFromEnd = size_t_sub (size_t_sub (nrow m) row) 1
      in \<not> (row < size_t_of_int (gapbar sc) \<or> rowFromEnd < size_t_of_int (gapbar sc)))"

subsection \<open>The E branch\<close>

text \<open>
  From \<open>sc_cur = eelt(row, col) + offsetsc\<close> to
  \<open>assert(origMask > 0 || sc_cur <= sc.match())\<close>: the value is \<open>origMask\<close>.
\<close>

definition E_origMask ::
  "bool \<Rightarrow> SSEMatrix \<Rightarrow> nat \<Rightarrow> nat \<Rightarrow> Scoring \<Rightarrow> int \<Rightarrow> int \<Rightarrow> bool \<Rightarrow> error + int" where
  "E_origMask dbg m row col sc offsetsc floorsc ga =
     bindE (eelt dbg m row col) (\<lambda>e_cur.
     let sc_cur = e_cur + offsetsc in
     assertE dbg ga
    (assertE dbg (col > 0)
    (bindE (helt dbg m row (size_t_sub col 1)) (\<lambda>h_left.
     let sc_h_left = h_left + offsetsc;
         msk0 = (if sc_h_left > floorsc \<and> sc_h_left - readGapOpen sc = sc_cur
                 then 0 OR push_bit 0 1 else 0)
     in
     bindE (eelt dbg m row (size_t_sub col 1)) (\<lambda>e_left.
     let sc_e_left = e_left + offsetsc;
         msk1 = (if sc_e_left > floorsc \<and> sc_e_left - readGapExtend sc = sc_cur
                 then msk0 OR push_bit 1 1 else msk0);
         origMask = msk1
     in
     assertE dbg (origMask > 0 \<or> sc_cur \<le> match sc) (Inr origMask))))))"

text \<open>\<open>if(isEMaskSet(row, col)) mask = (masks_[row * ncol_ + col] >> 8) & 3;\<close>\<close>

definition E_mask :: "SSEMatrix \<Rightarrow> nat \<Rightarrow> nat \<Rightarrow> int \<Rightarrow> error + int" where
  "E_mask m row col origMask =
     bindE (isEMaskSet m row col) (\<lambda>isset.
     if isset then bindE (mask_at m row col) (\<lambda>w. Inr (eMaskField w)) else Inr origMask)"

text \<open>The choice \<open>if(mask == 3) ... else if(mask == 2) ... else if(mask == 1) ... else ...\<close>.\<close>

definition E_choose ::
  "bool \<Rightarrow> 'r rand_ops \<Rightarrow> SSEMatrix \<Rightarrow> nat \<Rightarrow> nat \<Rightarrow> 'r \<Rightarrow> cell_out \<Rightarrow> int \<Rightarrow> int
     \<Rightarrow> error + (cell_out \<times> SSEMatrix \<times> 'r)" where
  "E_choose dbg ro m row col rand out origMask msk =
     (if msk = 3 then
        (let (u, rand') = nextU2 ro rand in
         if u \<noteq> 0
         then bindE (eMaskSet dbg m row col 2) (\<lambda>m'.
                Inr (out\<lparr>out_cur := SW_BT_OALL_READ_OPEN, out_branch := True\<rparr>, m', rand'))
         else bindE (eMaskSet dbg m row col 1) (\<lambda>m'.
                Inr (out\<lparr>out_cur := SW_BT_RDGAP_EXTEND, out_branch := True\<rparr>, m', rand')))
      else if msk = 2 then
        bindE (eMaskSet dbg m row col 0) (\<lambda>m'. Inr (out\<lparr>out_cur := SW_BT_RDGAP_EXTEND\<rparr>, m', rand))
      else if msk = 1 then
        bindE (eMaskSet dbg m row col 0) (\<lambda>m'. Inr (out\<lparr>out_cur := SW_BT_OALL_READ_OPEN\<rparr>, m', rand))
      else Inr (out\<lparr>out_empty := True, out_canMoveThru := (origMask = 0)\<rparr>, m, rand))"

text \<open>The branch, closed by \<open>assert(!empty || !canMoveThru)\<close>.\<close>

definition analyzeCell_E ::
  "bool \<Rightarrow> 'r rand_ops \<Rightarrow> SSEMatrix \<Rightarrow> nat \<Rightarrow> nat \<Rightarrow> Scoring \<Rightarrow> int \<Rightarrow> int \<Rightarrow> 'r \<Rightarrow> cell_out \<Rightarrow> bool
     \<Rightarrow> error + (cell_out \<times> SSEMatrix \<times> 'r)" where
  "analyzeCell_E dbg ro m row col sc offsetsc floorsc rand out ga =
     bindE (E_origMask dbg m row col sc offsetsc floorsc ga) (\<lambda>origMask.
     bindE (E_mask m row col origMask) (\<lambda>msk.
     bindE (E_choose dbg ro m row col rand out origMask msk) (\<lambda>(out', m', rand').
     assertE dbg (\<not> out_empty out' \<or> \<not> out_canMoveThru out') (Inr (out', m', rand')))))"

subsection \<open>The F branch\<close>

definition F_origMask ::
  "bool \<Rightarrow> SSEMatrix \<Rightarrow> nat \<Rightarrow> nat \<Rightarrow> Scoring \<Rightarrow> int \<Rightarrow> int \<Rightarrow> bool \<Rightarrow> error + int" where
  "F_origMask dbg m row col sc offsetsc floorsc ga =
     bindE (felt dbg m row col) (\<lambda>f_cur.
     let sc_cur = f_cur + offsetsc in
     assertE dbg ga
    (assertE dbg (row > 0)
    (bindE (helt dbg m (size_t_sub row 1) col) (\<lambda>h_up.
     let sc_h_up = h_up + offsetsc;
         msk0 = (if sc_h_up > floorsc \<and> sc_h_up - refGapOpen sc = sc_cur
                 then 0 OR push_bit 0 1 else 0)
     in
     bindE (felt dbg m (size_t_sub row 1) col) (\<lambda>f_up.
     let sc_f_up = f_up + offsetsc;
         msk1 = (if sc_f_up > floorsc \<and> sc_f_up - refGapExtend sc = sc_cur
                 then msk0 OR push_bit 1 1 else msk0);
         origMask = msk1
     in
     assertE dbg (origMask > 0 \<or> sc_cur \<le> match sc) (Inr origMask))))))"

text \<open>\<open>if(isFMaskSet(row, col)) mask = (masks_[row * ncol_ + col] >> 11) & 3;\<close>\<close>

definition F_mask :: "SSEMatrix \<Rightarrow> nat \<Rightarrow> nat \<Rightarrow> int \<Rightarrow> error + int" where
  "F_mask m row col origMask =
     bindE (isFMaskSet m row col) (\<lambda>isset.
     if isset then bindE (mask_at m row col) (\<lambda>w. Inr (fMaskField w)) else Inr origMask)"

definition F_choose ::
  "bool \<Rightarrow> 'r rand_ops \<Rightarrow> SSEMatrix \<Rightarrow> nat \<Rightarrow> nat \<Rightarrow> 'r \<Rightarrow> cell_out \<Rightarrow> int \<Rightarrow> int
     \<Rightarrow> error + (cell_out \<times> SSEMatrix \<times> 'r)" where
  "F_choose dbg ro m row col rand out origMask msk =
     (if msk = 3 then
        (let (u, rand') = nextU2 ro rand in
         if u \<noteq> 0
         then bindE (fMaskSet dbg m row col 2) (\<lambda>m'.
                Inr (out\<lparr>out_cur := SW_BT_OALL_REF_OPEN, out_branch := True\<rparr>, m', rand'))
         else bindE (fMaskSet dbg m row col 1) (\<lambda>m'.
                Inr (out\<lparr>out_cur := SW_BT_RFGAP_EXTEND, out_branch := True\<rparr>, m', rand')))
      else if msk = 2 then
        bindE (fMaskSet dbg m row col 0) (\<lambda>m'. Inr (out\<lparr>out_cur := SW_BT_RFGAP_EXTEND\<rparr>, m', rand))
      else if msk = 1 then
        bindE (fMaskSet dbg m row col 0) (\<lambda>m'. Inr (out\<lparr>out_cur := SW_BT_OALL_REF_OPEN\<rparr>, m', rand))
      else Inr (out\<lparr>out_empty := True, out_canMoveThru := (origMask = 0)\<rparr>, m, rand))"

definition analyzeCell_F ::
  "bool \<Rightarrow> 'r rand_ops \<Rightarrow> SSEMatrix \<Rightarrow> nat \<Rightarrow> nat \<Rightarrow> Scoring \<Rightarrow> int \<Rightarrow> int \<Rightarrow> 'r \<Rightarrow> cell_out \<Rightarrow> bool
     \<Rightarrow> error + (cell_out \<times> SSEMatrix \<times> 'r)" where
  "analyzeCell_F dbg ro m row col sc offsetsc floorsc rand out ga =
     bindE (F_origMask dbg m row col sc offsetsc floorsc ga) (\<lambda>origMask.
     bindE (F_mask m row col origMask) (\<lambda>msk.
     bindE (F_choose dbg ro m row col rand out origMask msk) (\<lambda>(out', m', rand').
     assertE dbg (\<not> out_empty out' \<or> \<not> out_canMoveThru out') (Inr (out', m', rand')))))"


subsection \<open>The H branch\<close>

text \<open>
  The mask of the predecessors that explain \<open>sc_cur\<close>:
  \<^verbatim>\<open>if(gapsAllowed) {
    if(sc_h_up     > floorsc && sc_cur == sc_h_up   - sc.refGapOpen())    mask |= (1 << 0);
    if(sc_h_left   > floorsc && sc_cur == sc_h_left - sc.readGapOpen())   mask |= (1 << 1);
    if(sc_f_up     > floorsc && sc_cur == sc_f_up   - sc.refGapExtend())  mask |= (1 << 2);
    if(sc_e_left   > floorsc && sc_cur == sc_e_left - sc.readGapExtend()) mask |= (1 << 3);
  }
  if(sc_h_upleft > floorsc && sc_cur == sc_h_upleft + sc_diag) mask |= (1 << 4);
  origMask = mask;\<close>
\<close>

definition H_predMask ::
  "bool \<Rightarrow> Scoring \<Rightarrow> int \<Rightarrow> int \<Rightarrow> int \<Rightarrow> int \<Rightarrow> int \<Rightarrow> int \<Rightarrow> int \<Rightarrow> int \<Rightarrow> int" where
  "H_predMask ga sc floorsc sc_cur sc_f_up sc_h_up sc_h_left sc_e_left sc_h_upleft sc_diag =
     (let msk0 = (if ga then
            (let k0 = (if sc_h_up > floorsc \<and> sc_cur = sc_h_up - refGapOpen sc
                       then 0 OR push_bit 0 1 else 0);
                 k1 = (if sc_h_left > floorsc \<and> sc_cur = sc_h_left - readGapOpen sc
                       then k0 OR push_bit 1 1 else k0);
                 k2 = (if sc_f_up > floorsc \<and> sc_cur = sc_f_up - refGapExtend sc
                       then k1 OR push_bit 2 1 else k1);
                 k3 = (if sc_e_left > floorsc \<and> sc_cur = sc_e_left - readGapExtend sc
                       then k2 OR push_bit 3 1 else k2)
             in k3)
          else 0)
      in if sc_h_upleft > floorsc \<and> sc_cur = sc_h_upleft + sc_diag
         then msk0 OR push_bit 4 1 else msk0)"

text \<open>
  From \<open>sc_cur = helt(row, col) + offsetsc\<close> to
  \<open>assert(origMask > 0 || sc_cur <= sc.match())\<close>: the value is \<open>origMask\<close>.
  \<^verbatim>\<open>assert_eq(H, ct);
  TAlScore sc_f_up     = felt(row-1, col) + offsetsc;
  TAlScore sc_h_up     = helt(row-1, col) + offsetsc;
  TAlScore sc_h_left   = col > 0 ? (helt(row, col-1) + offsetsc) : floorsc;
  TAlScore sc_e_left   = col > 0 ? (eelt(row, col-1) + offsetsc) : floorsc;
  TAlScore sc_h_upleft = col > 0 ? (helt(row-1, col-1) + offsetsc) : floorsc;
  TAlScore sc_diag     = sc.score(readc, (int)refc, readq - 33);\<close>
\<close>

definition H_origMask ::
  "bool \<Rightarrow> SSEMatrix \<Rightarrow> nat \<Rightarrow> nat \<Rightarrow> nat \<Rightarrow> int \<Rightarrow> int \<Rightarrow> int \<Rightarrow> Scoring \<Rightarrow> int \<Rightarrow> int \<Rightarrow> bool
     \<Rightarrow> error + int" where
  "H_origMask dbg m row col ct refc readc readq sc offsetsc floorsc ga =
     bindE (helt dbg m row col) (\<lambda>h_cur.
     let sc_cur = h_cur + offsetsc in
     assertE dbg (SSEMatrix_H = ct)
    (bindE (felt dbg m (size_t_sub row 1) col) (\<lambda>f_up.
     let sc_f_up = f_up + offsetsc in
     bindE (helt dbg m (size_t_sub row 1) col) (\<lambda>h_up.
     let sc_h_up = h_up + offsetsc in
     bindE (if col > 0 then bindE (helt dbg m row (col - 1)) (\<lambda>v. Inr (v + offsetsc))
            else Inr floorsc) (\<lambda>sc_h_left.
     bindE (if col > 0 then bindE (eelt dbg m row (col - 1)) (\<lambda>v. Inr (v + offsetsc))
            else Inr floorsc) (\<lambda>sc_e_left.
     bindE (if col > 0 then bindE (helt dbg m (size_t_sub row 1) (col - 1)) (\<lambda>v. Inr (v + offsetsc))
            else Inr floorsc) (\<lambda>sc_h_upleft.
     let sc_diag = score sc readc refc (readq - 33);
         origMask = H_predMask ga sc floorsc sc_cur sc_f_up sc_h_up sc_h_left sc_e_left
                      sc_h_upleft sc_diag
     in
     assertE dbg (origMask > 0 \<or> sc_cur \<le> match sc) (Inr origMask))))))))"

text \<open>
  \<^verbatim>\<open>if(isHMaskSet(row, col)) {
    mask = (masks_[row * ncol_ + col] >> 2) & 31;
  }\<close>
\<close>

definition H_mask :: "SSEMatrix \<Rightarrow> nat \<Rightarrow> nat \<Rightarrow> int \<Rightarrow> error + int" where
  "H_mask m row col origMask =
     bindE (isHMaskSet m row col) (\<lambda>isset.
     if isset then bindE (mask_at m row col) (\<lambda>w. Inr (hMaskField w)) else Inr origMask)"

text \<open>
  The translation of \<open>select\<close> into the transition, or the empty outcome:
  \<^verbatim>\<open>if(select != -1) {
    if(select == 4)      cur = SW_BT_OALL_DIAG;
    else if(select == 0) cur = SW_BT_OALL_REF_OPEN;
    else if(select == 1) cur = SW_BT_OALL_READ_OPEN;
    else if(select == 2) cur = SW_BT_RFGAP_EXTEND;
    else { assert_eq(3, select) cur = SW_BT_RDGAP_EXTEND; }
  } else {
    empty = true;
    canMoveThru = (origMask == 0);
  }\<close>
\<close>

definition H_transition :: "bool \<Rightarrow> int \<Rightarrow> int \<Rightarrow> cell_out \<Rightarrow> error + cell_out" where
  "H_transition dbg select origMask out =
     (if select \<noteq> - 1 then
        (if select = 4 then Inr (out\<lparr>out_cur := SW_BT_OALL_DIAG\<rparr>)
         else if select = 0 then Inr (out\<lparr>out_cur := SW_BT_OALL_REF_OPEN\<rparr>)
         else if select = 1 then Inr (out\<lparr>out_cur := SW_BT_OALL_READ_OPEN\<rparr>)
         else if select = 2 then Inr (out\<lparr>out_cur := SW_BT_RFGAP_EXTEND\<rparr>)
         else assertE dbg (3 = select) (Inr (out\<lparr>out_cur := SW_BT_RDGAP_EXTEND\<rparr>)))
      else Inr (out\<lparr>out_empty := True, out_canMoveThru := (origMask = 0)\<rparr>))"

text \<open>
  The choice among the alternatives of \<open>mask\<close>:
  \<^verbatim>\<open>int opts = alts5[mask];
  int select = -1;
  if(opts == 1) {
    select = firsts5[mask];
    assert_geq(mask, 0);
    hMaskSet(row, col, 0);
  } else if(opts > 1) {
    select = randFromMask(rand, mask);
    assert_geq(mask, 0);
    mask &= ~(1 << select);
    assert(gapsAllowed || mask == (1 << 4) || mask == 0);
    hMaskSet(row, col, mask);
    branch = true;
  } else { /* No way to backtrack! */ }\<close>
\<close>

definition H_choose ::
  "bool \<Rightarrow> 'r rand_ops \<Rightarrow> SSEMatrix \<Rightarrow> nat \<Rightarrow> nat \<Rightarrow> 'r \<Rightarrow> cell_out \<Rightarrow> bool \<Rightarrow> int \<Rightarrow> int
     \<Rightarrow> error + (cell_out \<times> SSEMatrix \<times> 'r)" where
  "H_choose dbg ro m row col rand out ga origMask msk =
     (let opts = alts5 msk in
      if opts = 1 then
        (let select = firsts5 msk in
         assertE dbg (msk \<ge> 0)
        (bindE (hMaskSet dbg m row col 0) (\<lambda>m'.
         bindE (H_transition dbg select origMask out) (\<lambda>out'.
         Inr (out', m', rand)))))
      else if opts > 1 then
        (let (sel, rand') = randFromMask ro rand msk;
             select = int sel
         in
         assertE dbg (msk \<ge> 0)
        (let msk' = msk AND NOT (push_bit sel 1) in
         assertE dbg (ga \<or> msk' = push_bit 4 1 \<or> msk' = 0)
        (bindE (hMaskSet dbg m row col msk') (\<lambda>m'.
         bindE (H_transition dbg select origMask (out\<lparr>out_branch := True\<rparr>)) (\<lambda>out'.
         Inr (out', m', rand'))))))
      else
        bindE (H_transition dbg (- 1) origMask out) (\<lambda>out'. Inr (out', m, rand)))"

text \<open>The branch, with \<open>assert(gapsAllowed || mask == (1 << 4) || mask == 0)\<close> after the lookup.\<close>

definition analyzeCell_H ::
  "bool \<Rightarrow> 'r rand_ops \<Rightarrow> SSEMatrix \<Rightarrow> nat \<Rightarrow> nat \<Rightarrow> nat \<Rightarrow> int \<Rightarrow> int \<Rightarrow> int \<Rightarrow> Scoring \<Rightarrow> int \<Rightarrow> int
     \<Rightarrow> 'r \<Rightarrow> cell_out \<Rightarrow> bool \<Rightarrow> error + (cell_out \<times> SSEMatrix \<times> 'r)" where
  "analyzeCell_H dbg ro m row col ct refc readc readq sc offsetsc floorsc rand out ga =
     bindE (H_origMask dbg m row col ct refc readc readq sc offsetsc floorsc ga) (\<lambda>origMask.
     bindE (H_mask m row col origMask) (\<lambda>msk.
     assertE dbg (ga \<or> msk = push_bit 4 1 \<or> msk = 0)
    (H_choose dbg ro m row col rand out ga origMask msk)))"

subsection \<open>analyzeCell\<close>

text \<open>
  \<^verbatim>\<open>reportedThru = reportedThrough(row, col);
  canMoveThru = true;
  if(reportedThru) {
    canMoveThru = false;
    return;
  }
  empty = false;
  if(row == 0) {
    return;
  }
  assert_gt(row, 0);
  ... gapsAllowed ...
  if(ct == E) { ... } else if(ct == F) { ... } else { ... }
  assert(!empty || !canMoveThru || ct == H);\<close>
  The value is the triple of the outputs, the matrix (whose mask words the call may have
  changed) and the state of the random generator.
\<close>

definition analyzeCell ::
  "bool \<Rightarrow> 'r rand_ops \<Rightarrow> SSEMatrix \<Rightarrow> nat \<Rightarrow> nat \<Rightarrow> nat \<Rightarrow> int \<Rightarrow> int \<Rightarrow> int \<Rightarrow> Scoring \<Rightarrow> int \<Rightarrow> int
     \<Rightarrow> 'r \<Rightarrow> cell_out \<Rightarrow> error + (cell_out \<times> SSEMatrix \<times> 'r)" where
  "analyzeCell dbg ro m row col ct refc readc readq sc offsetsc floorsc rand out =
     bindE (reportedThrough m row col) (\<lambda>rt.
     let out1 = out\<lparr>out_reportedThru := rt, out_canMoveThru := True\<rparr> in
     if rt then Inr (out1\<lparr>out_canMoveThru := False\<rparr>, m, rand)
     else
       (let out2 = out1\<lparr>out_empty := False\<rparr> in
        if row = 0 then Inr (out2, m, rand)
        else
          assertE dbg (row > 0)
         (let ga = gapsAllowed sc m row in
          bindE (if ct = SSEMatrix_E then
                   analyzeCell_E dbg ro m row col sc offsetsc floorsc rand out2 ga
                 else if ct = SSEMatrix_F then
                   analyzeCell_F dbg ro m row col sc offsetsc floorsc rand out2 ga
                 else
                   analyzeCell_H dbg ro m row col ct refc readc readq sc offsetsc floorsc rand out2 ga)
            (\<lambda>(out', m', rand').
               assertE dbg (\<not> out_empty out' \<or> \<not> out_canMoveThru out' \<or> ct = SSEMatrix_H)
                 (Inr (out', m', rand'))))))"

text \<open>
  The predecessor set recomputed from the scores and the set that remains after the mask
  lookup, for a cell of type \<open>ct\<close>, as the three branches compute them.
\<close>

definition cell_origMask ::
  "bool \<Rightarrow> SSEMatrix \<Rightarrow> nat \<Rightarrow> nat \<Rightarrow> nat \<Rightarrow> int \<Rightarrow> int \<Rightarrow> int \<Rightarrow> Scoring \<Rightarrow> int \<Rightarrow> int \<Rightarrow> error + int" where
  "cell_origMask dbg m row col ct refc readc readq sc offsetsc floorsc =
     (let ga = gapsAllowed sc m row in
      if ct = SSEMatrix_E then E_origMask dbg m row col sc offsetsc floorsc ga
      else if ct = SSEMatrix_F then F_origMask dbg m row col sc offsetsc floorsc ga
      else H_origMask dbg m row col ct refc readc readq sc offsetsc floorsc ga)"

definition cell_mask :: "SSEMatrix \<Rightarrow> nat \<Rightarrow> nat \<Rightarrow> nat \<Rightarrow> int \<Rightarrow> error + int" where
  "cell_mask m row col ct origMask =
     (if ct = SSEMatrix_E then E_mask m row col origMask
      else if ct = SSEMatrix_F then F_mask m row col origMask
      else H_mask m row col origMask)"

text \<open>
  The mask words of the cells in the top and bottom \<open>gapbar\<close> rows hold an H mask that is
  the diagonal-only mask or empty.
\<close>

definition barrier_masks_ok :: "Scoring \<Rightarrow> SSEMatrix \<Rightarrow> bool" where
  "barrier_masks_ok sc m \<longleftrightarrow>
     length (masks m) = nrow m * ncol m \<and>
     (\<forall>row < nrow m. \<forall>col < ncol m. \<not> gapsAllowed sc m row \<longrightarrow>
        hMaskField (masks m ! (row * ncol m + col)) = push_bit 4 1 \<or>
        hMaskField (masks m ! (row * ncol m + col)) = 0)"


section \<open>Notions used in the statements\<close>

text \<open>
  A loop that starts at score \<open>sc\<close> with counter \<open>num\<close> and charges \<open>d\<close> per iteration
  exits with counter \<open>r\<close>: the score after \<open>r - num\<close> charges is the first one below
  \<open>minsc\<close>.
\<close>

definition exits_at :: "int \<Rightarrow> int \<Rightarrow> int \<Rightarrow> int \<Rightarrow> int \<Rightarrow> bool" where
  "exits_at d minsc sc num r \<longleftrightarrow>
     num \<le> r \<and> sc - (r - num) * d < minsc \<and> (num < r \<longrightarrow> minsc \<le> sc - (r - num - 1) * d)"

text \<open>
  The running total of Ns, starting from \<open>k\<close> and read after each base of \<open>rd\<close>, never
  exceeds \<open>maxns\<close>.
\<close>

definition never_exceeds :: "real \<Rightarrow> nat \<Rightarrow> 8 word list \<Rightarrow> bool" where
  "never_exceeds maxns k rd \<longleftrightarrow> (\<forall>j < length rd. real (k + count_Ns (take (Suc j) rd)) \<le> maxns)"

section \<open>Concrete inputs\<close>

text \<open>
  An example scheme with the match bonus, gap costs and gap barrier that the assertions of
  test case 1 in scoring.cpp state (\<open>match = 1\<close>, a first gap costs 15, a further gap 4,
  \<open>gapbar = 5\<close>, mismatch penalty 3), and the N ceiling \<open>2 + 0.125 * len\<close>.
\<close>

definition scoring_ex :: Scoring where
  "scoring_ex = \<lparr>match = 1, readGapOpen = 15, readGapExtend = 4, refGapOpen = 15,
     refGapExtend = 4, gapbar = 5, nCeilConst = 2, nCeilLinear = 1 / 8, ncatpair = True,
     score = (\<lambda>readc refc q. if readc = refc \<and> readc < 4 then 1 else - 3)\<rparr>"

text \<open>
  A matrix of 2 rows and 2 columns with 16 lanes per vector, as \<open>init(2, 2, 16)\<close> shapes
  it: one striped row, 4 vectors per column, and a zeroed buffer of 12 vectors and 4 mask
  words.
\<close>

definition mat_ex :: SSEMatrix where
  "mat_ex = \<lparr>inited = True, nrow = 2, ncol = 2, nvecrow = 1, nveccol = 2, wperv = 16,
     vecshift = 4, nvecPerCol = 1, nvecPerCell = 4, colstride = 4, rowstride = 4,
     bufal = replicate 192 0, masks = replicate 4 0\<rparr>"

text \<open>A generator that always draws 0, and a \<open>randFromMask\<close> that picks the lowest set bit.\<close>

definition rand_ex :: "unit rand_ops" where
  "rand_ex = \<lparr>nextU2 = (\<lambda>r. (0, r)), randFromMask = (\<lambda>r msk. (nat (firsts5 msk), r))\<rparr>"

definition out_ex :: cell_out where
  "out_ex = \<lparr>out_empty = False, out_cur = SW_BT_OALL_DIAG, out_branch = False,
     out_canMoveThru = False, out_reportedThru = False\<rparr>"

text \<open>
  A matrix of 20 rows and 1 column with 16 lanes per vector, as \<open>init(20, 1, 16)\<close> shapes
  it (two striped rows), whose buffer holds the byte \<open>i\<close> at offset \<open>i\<close>.
\<close>

definition mat_striped :: SSEMatrix where
  "mat_striped = \<lparr>inited = True, nrow = 20, ncol = 1, nvecrow = 2, nveccol = 1, wperv = 16,
     vecshift = 4, nvecPerCol = 2, nvecPerCell = 4, colstride = 8, rowstride = 4,
     bufal = map of_nat [0..<256], masks = replicate 20 0\<rparr>"

text \<open>
  The matrix \<open>mat_ex\<close> with the H score 1 in cell \<open>(1, 1)\<close> (the byte at offset
  \<open>16 * 6 + 1\<close>), every other score being 0.
\<close>

definition mat_diag :: SSEMatrix where
  "mat_diag = mat_ex\<lparr>bufal := (replicate 192 0)[97 := 1]\<rparr>"

text \<open>
  The example scheme with \<open>match = 2\<close>; with the N ceiling \<open>16777216 + 0 * len\<close>
  (\<open>2^24\<close>); and with the N ceiling \<open>0 + 0.7f * len\<close>, where \<open>0.7f\<close> is the binary32
  value nearest to 0.7, \<open>11744051 / 2^24\<close>.
\<close>

definition scoring_match2 :: Scoring where
  "scoring_match2 = scoring_ex\<lparr>match := 2\<rparr>"

definition scoring_sat :: Scoring where
  "scoring_sat = scoring_ex\<lparr>nCeilConst := 16777216, nCeilLinear := 0\<rparr>"

definition scoring_tenths :: Scoring where
  "scoring_tenths = scoring_ex\<lparr>nCeilConst := 0, nCeilLinear := 11744051 / 16777216\<rparr>"

text \<open>A read of \<open>2^24\<close> bases, all of them N.\<close>

definition mate_sat :: "8 word list" where
  "mate_sat = replicate 16777216 4"

section \<open>Mask words: the bits that the setters write\<close>

lemma bit_shifted_mask: "bit (push_bit s (mask k) :: int) n \<longleftrightarrow> s \<le> n \<and> n < s + k"
  by (auto simp add: bit_simps)

lemma bit_62: "bit (62::int) n \<longleftrightarrow> 1 \<le> n \<and> n < 6"
  using bit_shifted_mask[of 1 5 n] by (simp add: mask_eq_exp_minus_1)

lemma bit_31: "bit (31::int) n \<longleftrightarrow> n < 5"
  using bit_shifted_mask[of 0 5 n] by (simp add: mask_eq_exp_minus_1)

lemma bit_3: "bit (3::int) n \<longleftrightarrow> n < 2"
  using bit_shifted_mask[of 0 2 n] by (simp add: mask_eq_exp_minus_1 numeral_2_eq_2)

lemma bit_16: "bit (16::int) n \<longleftrightarrow> n = 4"
  using bit_exp_iff[where ?'a = int, of 4 n] by simp

lemma bit_128: "bit (128::int) n \<longleftrightarrow> n = 7"
  using bit_exp_iff[where ?'a = int, of 7 n] by simp

lemma bit_1024: "bit (1024::int) n \<longleftrightarrow> n = 10"
  using bit_exp_iff[where ?'a = int, of 10 n] by simp

lemma bit_896: "bit (896::int) n \<longleftrightarrow> 7 \<le> n \<and> n < 10"
  using bit_shifted_mask[of 7 3 n] by (simp add: mask_eq_exp_minus_1)

lemma bit_7168: "bit (7168::int) n \<longleftrightarrow> 10 \<le> n \<and> n < 13"
  using bit_shifted_mask[of 10 3 n] by (simp add: mask_eq_exp_minus_1)

lemmas bit_consts = bit_62 bit_31 bit_3 bit_16 bit_128 bit_1024 bit_896 bit_7168

lemma bit_hMaskWord:
  "bit (hMaskWord w (take_bit 5 x)) n \<longleftrightarrow>
     (n = 1 \<or> (2 \<le> n \<and> n \<le> 6 \<and> bit x (n - 2)) \<or> ((n = 0 \<or> 6 \<le> n) \<and> bit w n))"
  by (auto simp add: hMaskWord_def and_assign_def or_assign_def bit_simps bit_consts
      dest: bit_imp_le_length)

lemma bit_eMaskWord:
  "bit (eMaskWord w (take_bit 2 x)) n \<longleftrightarrow>
     (n = 7 \<or> (8 \<le> n \<and> n \<le> 9 \<and> bit x (n - 8)) \<or> ((n < 7 \<or> 10 \<le> n) \<and> bit w n))"
  by (auto simp add: eMaskWord_def and_assign_def or_assign_def bit_simps bit_consts
      dest: bit_imp_le_length)

lemma bit_fMaskWord:
  "bit (fMaskWord w (take_bit 2 x)) n \<longleftrightarrow>
     (n = 10 \<or> (11 \<le> n \<and> n \<le> 12 \<and> bit x (n - 11)) \<or> ((n < 10 \<or> 13 \<le> n) \<and> bit w n))"
  by (auto simp add: fMaskWord_def and_assign_def or_assign_def bit_simps bit_consts
      dest: bit_imp_le_length)

text \<open>
  What \<open>hMaskSet\<close> leaves in the 5-bit field: the new mask, joined with the old
  diagonal bit (bit 6 of the word), which \<open>~(31 << 1)\<close> does not clear.
\<close>

lemma hMaskField_hMaskWord:
  "hMaskField (hMaskWord w (take_bit 5 x)) = take_bit 5 x OR (hMaskField w AND 16)"
  by (rule bit_eqI) (auto simp add: hMaskField_def bit_simps bit_hMaskWord bit_consts)

lemma hMaskField_eMaskWord: "hMaskField (eMaskWord w (take_bit 2 x)) = hMaskField w"
  by (rule bit_eqI) (auto simp add: hMaskField_def bit_simps bit_eMaskWord bit_consts)

lemma hMaskField_fMaskWord: "hMaskField (fMaskWord w (take_bit 2 x)) = hMaskField w"
  by (rule bit_eqI) (auto simp add: hMaskField_def bit_simps bit_fMaskWord bit_consts)


section \<open>C1: hMaskSet on a cell whose H mask was set before\<close>

lemma replicate_4: "replicate 4 x = [x, x, x, x]"
  by (simp add: numeral_eq_Suc)

text \<open>
  C1. The claim: after \<open>hMaskSet(r, c, m)\<close>, whatever an earlier \<open>hMaskSet\<close> stored in
  the cell, \<open>isHMaskSet(r, c)\<close> is true and the 5-bit H mask field reads exactly \<open>m\<close>.
  On the code this fails: in the cell \<open>(1, 1)\<close> of a freshly zeroed 2 by 2 matrix,
  \<open>hMaskSet(1, 1, 16)\<close> followed by \<open>hMaskSet(1, 1, 0)\<close> leaves the word 66, whose
  initialised bit is set and whose H mask field still reads 16, not 0.
\<close>

theorem hMaskSet_stale_diagonal_bit:
  "bindE (hMaskSet True (initMasks mat_ex) 1 1 16) (\<lambda>m1. hMaskSet True m1 1 1 0)
     = Inr (mat_ex\<lparr>masks := [0, 0, 0, 66]\<rparr>)
   \<and> isHMaskSet (mat_ex\<lparr>masks := [0, 0, 0, 66]\<rparr>) 1 1 = Inr True
   \<and> H_mask (mat_ex\<lparr>masks := [0, 0, 0, 66]\<rparr>) 1 1 0 = Inr 16"
  by (simp add: hMaskSet_def assertE_def mask_update_def bindE_def initMasks_def mat_ex_def
      hMaskWord_def and_assign_def or_assign_def isHMaskSet_def H_mask_def mask_at_def
      hMaskField_def replicate_4)

section \<open>The gap bounds\<close>

lemma sint_size_product:
  assumes fits: "in_int64 (int (unat w) * m)"
  shows "sint (w * word_of_int m :: 64 word) = int (unat w) * m"
proof -
  have "w * word_of_int m = (word_of_int (uint w * m) :: 64 word)" by simp
  then have "sint (w * word_of_int m :: 64 word) = signed_take_bit 63 (uint w * m)"
    by (simp only: sint_sbintrunc') simp
  also have "\<dots> = uint w * m"
    using fits by (intro signed_take_bit_int_eq_self) (simp_all add: in_int64_def)
  finally show ?thesis by simp
qed

lemma exits_at_stop: "sc < minsc \<Longrightarrow> exits_at d minsc sc num num"
  by (simp add: exits_at_def)

lemma exits_at_step:
  assumes a: "minsc \<le> sc" and b: "exits_at d minsc (sc - d) (num + 1) r"
  shows "exits_at d minsc sc num r"
proof -
  have e1: "sc - d - (r - (num + 1)) * d = sc - (r - num) * d" by (simp add: algebra_simps)
  have e2: "sc - d - (r - (num + 1) - 1) * d = sc - (r - num - 1) * d" by (simp add: algebra_simps)
  show ?thesis
  proof (cases "r = num + 1")
    case True
    then show ?thesis using a b by (simp add: exits_at_def)
  next
    case False
    then show ?thesis using b e1 e2 by (auto simp add: exits_at_def)
  qed
qed

lemma maxReadGaps_loop_stop: "sc < minsc \<Longrightarrow> maxReadGaps_loop s minsc sc first num = Inr num"
  by (subst maxReadGaps_loop.simps) simp

lemma maxReadGaps_loop_step:
  assumes go: "minsc \<le> sc" and run: "maxReadGaps_loop s minsc sc first num = Inr r"
  shows "in_int64 (sc - match s)
       \<and> in_int64 (sc - match s - (if first then readGapOpen s else readGapExtend s))
       \<and> in_int32 (num + 1)
       \<and> maxReadGaps_loop s minsc
            (sc - match s - (if first then readGapOpen s else readGapExtend s)) False (num + 1) = Inr r"
  using run go by (subst (asm) maxReadGaps_loop.simps) (simp split: if_splits)

lemma maxReadGaps_loop_Inl:
  "maxReadGaps_loop s minsc sc first num = Inl e \<Longrightarrow> e = SignedOverflow"
proof (induction s minsc sc first num rule: maxReadGaps_loop.induct)
  case (1 s minsc sc first num)
  from "1.prems" show ?case
    by (subst (asm) maxReadGaps_loop.simps) (auto split: if_splits dest: "1.IH")
qed

lemma maxReadGaps_loop_int:
  "maxReadGaps_loop s minsc sc first num = Inr r \<Longrightarrow> in_int32 num \<Longrightarrow> num \<le> r \<and> in_int32 r"
proof (induction s minsc sc first num rule: maxReadGaps_loop.induct)
  case (1 s minsc sc first num)
  show ?case
  proof (cases "minsc \<le> sc")
    case False
    with "1.prems" show ?thesis by (simp add: maxReadGaps_loop_stop)
  next
    case True
    from maxReadGaps_loop_step[OF True "1.prems"(1)] "1.IH" True show ?thesis by fastforce
  qed
qed

lemma maxReadGaps_loop_exit:
  "maxReadGaps_loop s minsc sc first num = Inr r \<Longrightarrow> \<not> first \<Longrightarrow>
   exits_at (match s + readGapExtend s) minsc sc num r"
proof (induction s minsc sc first num rule: maxReadGaps_loop.induct)
  case (1 s minsc sc first num)
  show ?case
  proof (cases "minsc \<le> sc")
    case False
    with "1.prems" show ?thesis by (simp add: maxReadGaps_loop_stop exits_at_stop)
  next
    case True
    from maxReadGaps_loop_step[OF True "1.prems"(1)] "1.prems"(2)
    have ok: "in_int64 (sc - match s)" "in_int64 (sc - match s - readGapExtend s)"
      "in_int32 (num + 1)"
      and run: "maxReadGaps_loop s minsc (sc - match s - readGapExtend s) False (num + 1) = Inr r"
      by simp_all
    have "exits_at (match s + readGapExtend s) minsc
            (sc - match s - (if first then readGapOpen s else readGapExtend s)) (num + 1) r"
      using "1.IH" True ok run "1.prems"(2) by simp
    then have "exits_at (match s + readGapExtend s) minsc (sc - (match s + readGapExtend s)) (num + 1) r"
      using "1.prems"(2) by (simp add: algebra_simps)
    with True show ?thesis by (rule exits_at_step)
  qed
qed

lemma maxReadGaps_loop_returns:
  assumes m: "0 \<le> match s" and ge: "0 \<le> readGapExtend s" and pos: "0 < match s + readGapExtend s"
    and lo: "- (2 ^ 63) \<le> minsc - match s - readGapExtend s"
  shows "sc < 2 ^ 63 \<Longrightarrow> 0 \<le> num \<Longrightarrow> (minsc \<le> sc \<longrightarrow> num + (sc - minsc + 1) < 2 ^ 31) \<Longrightarrow>
         \<exists>r. maxReadGaps_loop s minsc sc False num = Inr r"
proof (induction "nat (sc - minsc + 1)" arbitrary: sc num rule: less_induct)
  case less
  show ?case
  proof (cases "minsc \<le> sc")
    case False
    then show ?thesis by (simp add: maxReadGaps_loop_stop)
  next
    case True
    let ?sc' = "sc - match s - readGapExtend s"
    have r1: "in_int64 (sc - match s)" using True m ge lo less.prems(1) by (simp add: in_int64_def)
    have r2: "in_int64 ?sc'" using True m ge lo less.prems(1) by (simp add: in_int64_def)
    have r3: "in_int32 (num + 1)" using True less.prems(2,3) by (simp add: in_int32_def)
    have d: "nat (?sc' - minsc + 1) < nat (sc - minsc + 1)" using True pos by linarith
    have "\<exists>r. maxReadGaps_loop s minsc ?sc' False (num + 1) = Inr r"
    proof (rule less.hyps[OF d])
      show "?sc' < 2 ^ 63" using m ge less.prems(1) by linarith
      show "0 \<le> num + 1" using less.prems(2) by simp
      show "minsc \<le> ?sc' \<longrightarrow> num + 1 + (?sc' - minsc + 1) < 2 ^ 31"
        using True pos less.prems(3) by linarith
    qed
    then show ?thesis using True r1 r2 r3 by (subst maxReadGaps_loop.simps) simp
  qed
qed

lemma maxReadGaps_outcome:
  assumes fits: "in_int64 (int (unat rdlen) * match s)"
    and pre: "minsc \<le> int (unat rdlen) * match s"
  shows "maxReadGaps dbg s minsc rdlen = Inl SignedOverflow \<or>
         (\<exists>k. maxReadGaps dbg s minsc rdlen = Inr k \<and> 0 \<le> k \<and>
              minsc \<le> read_gaps_score s (unat rdlen) k \<and>
              read_gaps_score s (unat rdlen) (k + 1) < minsc)"
proof -
  let ?sc = "int (unat rdlen) * match s"
  have sc: "sint (rdlen * word_of_int (match s)) = ?sc" by (rule sint_size_product[OF fits])
  have unf: "maxReadGaps dbg s minsc rdlen =
      bindE (maxReadGaps_loop s minsc ?sc True 0) (\<lambda>num. assertE dbg (num > 0) (Inr (num - 1)))"
    using pre by (simp add: maxReadGaps_def Let_def sc assertE_def)
  show ?thesis
  proof (cases "maxReadGaps_loop s minsc ?sc True 0")
    case (Inl e)
    with maxReadGaps_loop_Inl[OF Inl] show ?thesis by (simp add: unf bindE_def)
  next
    case (Inr r)
    from maxReadGaps_loop_step[OF pre Inr]
    have "maxReadGaps_loop s minsc (?sc - match s - readGapOpen s) False 1 = Inr r" by simp
    from maxReadGaps_loop_exit[OF this]
    have ex: "exits_at (match s + readGapExtend s) minsc (?sc - match s - readGapOpen s) 1 r" by simp
    then have r1: "1 \<le> r" by (simp add: exits_at_def)
    have below: "read_gaps_score s (unat rdlen) (r - 1 + 1) < minsc"
      using ex r1 by (simp add: exits_at_def read_gaps_score_def algebra_simps)
    have above: "minsc \<le> read_gaps_score s (unat rdlen) (r - 1)"
    proof (cases "r = 1")
      case True
      then show ?thesis using pre by (simp add: read_gaps_score_def)
    next
      case False
      with r1 have "1 < r" by simp
      with ex have "minsc \<le> ?sc - match s - readGapOpen s - (r - 1 - 1) * (match s + readGapExtend s)"
        by (simp add: exits_at_def)
      then show ?thesis using False by (simp add: read_gaps_score_def algebra_simps)
    qed
    have "maxReadGaps dbg s minsc rdlen = Inr (r - 1)"
      using Inr r1 by (simp add: unf bindE_def assertE_def)
    with r1 below above show ?thesis by simp
  qed
qed

text \<open>The value that \<open>maxReadGaps\<close> returns is an \<open>int\<close>.\<close>

lemma maxReadGaps_result_int:
  assumes res: "maxReadGaps dbg s minsc rdlen = Inr k"
  shows "- 1 \<le> k \<and> in_int32 k"
proof -
  let ?sc = "sint (rdlen * word_of_int (match s))"
  from res obtain r where loop: "maxReadGaps_loop s minsc ?sc True 0 = Inr r" and k: "k = r - 1"
    by (cases "maxReadGaps_loop s minsc ?sc True 0")
      (auto simp add: maxReadGaps_def Let_def assertE_def bindE_def split: if_splits)
  from maxReadGaps_loop_int[OF loop] have "0 \<le> r \<and> in_int32 r" by (simp add: in_int32_def)
  with k show ?thesis by (simp add: in_int32_def)
qed

lemma maxReadGaps_returns:
  assumes fits: "in_int64 (int (unat rdlen) * match s)"
    and pre: "minsc \<le> int (unat rdlen) * match s"
    and m: "0 \<le> match s" and go: "0 \<le> readGapOpen s" and ge: "0 \<le> readGapExtend s"
    and pos: "0 < match s + readGapExtend s"
    and lo1: "- (2 ^ 63) \<le> minsc - match s - readGapOpen s"
    and lo2: "- (2 ^ 63) \<le> minsc - match s - readGapExtend s"
    and cnt: "int (unat rdlen) * match s - minsc < 2 ^ 31 - 2"
  shows "\<exists>k. maxReadGaps dbg s minsc rdlen = Inr k"
proof -
  let ?sc = "int (unat rdlen) * match s"
  let ?sc1 = "?sc - match s - readGapOpen s"
  have sc: "sint (rdlen * word_of_int (match s)) = ?sc" by (rule sint_size_product[OF fits])
  have unf: "maxReadGaps dbg s minsc rdlen =
      bindE (maxReadGaps_loop s minsc ?sc True 0) (\<lambda>num. assertE dbg (num > 0) (Inr (num - 1)))"
    using pre by (simp add: maxReadGaps_def Let_def sc assertE_def)
  have "\<exists>r. maxReadGaps_loop s minsc ?sc1 False 1 = Inr r"
  proof (rule maxReadGaps_loop_returns[OF m ge pos lo2])
    show "?sc1 < 2 ^ 63" using fits m go by (simp add: in_int64_def)
    show "(0::int) \<le> 1" by simp
    show "minsc \<le> ?sc1 \<longrightarrow> 1 + (?sc1 - minsc + 1) < 2 ^ 31" using cnt m go by linarith
  qed
  then obtain r where r: "maxReadGaps_loop s minsc ?sc1 False 1 = Inr r" by blast
  have r1: "in_int64 (?sc - match s)" using fits pre m go lo1 by (simp add: in_int64_def)
  have r2: "in_int64 ?sc1" using fits pre m go lo1 by (simp add: in_int64_def)
  have first: "maxReadGaps_loop s minsc ?sc True 0 = Inr r"
    using pre r r1 r2 by (subst maxReadGaps_loop.simps) (simp add: in_int32_def)
  from maxReadGaps_outcome[OF fits pre, of dbg] first show ?thesis
    by (auto simp add: unf bindE_def assertE_def split: if_splits)
qed

text \<open>
  Some of the assertions of test case 1 in scoring.cpp, on the model:
  \<open>assert_eq(0, sc.maxReadGaps(0, 15))\<close>, \<open>assert_eq(1, sc.maxReadGaps(0, 16))\<close>,
  \<open>assert_eq(2, sc.maxReadGaps(0, 21))\<close>, \<open>assert_eq(0, sc.maxRefGaps(0, 14))\<close>,
  \<open>assert_eq(1, sc.maxRefGaps(0, 15))\<close> and \<open>assert_eq(2, sc.maxRefGaps(0, 19))\<close>.
\<close>

lemma scoring_test_case_1:
  "maxReadGaps True scoring_ex 0 15 = Inr 0"
  "maxReadGaps True scoring_ex 0 16 = Inr 1"
  "maxReadGaps True scoring_ex 0 21 = Inr 2"
  "maxRefGaps True scoring_ex 0 14 = Inr 0"
  "maxRefGaps True scoring_ex 0 15 = Inr 1"
  "maxRefGaps True scoring_ex 0 19 = Inr 2"
  by (simp_all add: maxReadGaps_def maxRefGaps_def scoring_ex_def maxReadGaps_loop.simps
      maxRefGaps_loop.simps assertE_def bindE_def in_int64_def in_int32_def)

text \<open>
  C3, amended. Let \<open>read_len * match\<close> be representable in \<open>int64_t\<close> and at least
  \<open>min_score\<close>. Then no assertion of \<open>maxReadGaps\<close> fails, and a value \<open>k\<close> that it
  returns is non-negative and at the boundary: the all-match score with \<open>k\<close> read gaps is
  at least \<open>min_score\<close> and the score with \<open>k + 1\<close> read gaps is below it. The only other
  outcome is a signed overflow in the loop. It does return a value when the costs are not
  negative, a further gap costs something (\<open>match + readGapExtend > 0\<close>), one more gap
  below \<open>min_score\<close> is still an \<open>int64_t\<close>, and \<open>read_len * match - min_score\<close> is
  below \<open>2^31 - 2\<close>, so that the counter stays an \<open>int\<close>.
\<close>

theorem maxReadGaps_boundary:
  assumes fits: "in_int64 (int (unat rdlen) * match s)"
    and pre: "minsc \<le> int (unat rdlen) * match s"
  shows "(maxReadGaps dbg s minsc rdlen = Inl SignedOverflow \<or>
          (\<exists>k. maxReadGaps dbg s minsc rdlen = Inr k \<and> 0 \<le> k \<and>
               minsc \<le> read_gaps_score s (unat rdlen) k \<and>
               read_gaps_score s (unat rdlen) (k + 1) < minsc))
       \<and> (0 \<le> match s \<and> 0 \<le> readGapOpen s \<and> 0 \<le> readGapExtend s \<and>
          0 < match s + readGapExtend s \<and>
          - (2 ^ 63) \<le> minsc - match s - readGapOpen s \<and>
          - (2 ^ 63) \<le> minsc - match s - readGapExtend s \<and>
          int (unat rdlen) * match s - minsc < 2 ^ 31 - 2 \<longrightarrow>
          (\<exists>k. maxReadGaps dbg s minsc rdlen = Inr k))"
  using maxReadGaps_outcome[OF fits pre] maxReadGaps_returns[OF fits pre] by blast

text \<open>
  A read of 21 bases under the example scheme and \<open>min_score = 0\<close>: two read gaps
  score \<open>21 - 2 - 19 = 0\<close>, three score \<open>21 - 3 - 23 < 0\<close>.
\<close>

theorem maxReadGaps_boundary_witness:
  "in_int64 (int (unat (21 :: 64 word)) * match scoring_ex)
   \<and> (0::int) \<le> int (unat (21 :: 64 word)) * match scoring_ex
   \<and> 0 \<le> match scoring_ex \<and> 0 \<le> readGapOpen scoring_ex \<and> 0 \<le> readGapExtend scoring_ex
   \<and> 0 < match scoring_ex + readGapExtend scoring_ex
   \<and> - (2 ^ 63) \<le> 0 - match scoring_ex - readGapOpen scoring_ex
   \<and> - (2 ^ 63) \<le> 0 - match scoring_ex - readGapExtend scoring_ex
   \<and> int (unat (21 :: 64 word)) * match scoring_ex - 0 < 2 ^ 31 - 2
   \<and> maxReadGaps True scoring_ex 0 21 = Inr 2
   \<and> 0 \<le> read_gaps_score scoring_ex (unat (21 :: 64 word)) 2
   \<and> read_gaps_score scoring_ex (unat (21 :: 64 word)) (2 + 1) < 0"
proof -
  have fits: "in_int64 (int (unat (21 :: 64 word)) * match scoring_ex)"
    by (simp add: scoring_ex_def in_int64_def)
  have pre: "(0::int) \<le> int (unat (21 :: 64 word)) * match scoring_ex" by (simp add: scoring_ex_def)
  have run: "maxReadGaps True scoring_ex 0 21 = Inr 2"
    by (simp add: maxReadGaps_def scoring_ex_def maxReadGaps_loop.simps assertE_def bindE_def
        in_int64_def in_int32_def)
  have conds: "0 \<le> match scoring_ex \<and> 0 \<le> readGapOpen scoring_ex \<and> 0 \<le> readGapExtend scoring_ex
      \<and> 0 < match scoring_ex + readGapExtend scoring_ex
      \<and> - (2 ^ 63) \<le> 0 - match scoring_ex - readGapOpen scoring_ex
      \<and> - (2 ^ 63) \<le> 0 - match scoring_ex - readGapExtend scoring_ex
      \<and> int (unat (21 :: 64 word)) * match scoring_ex - 0 < 2 ^ 31 - 2"
    by (simp add: scoring_ex_def)
  from maxReadGaps_boundary[OF fits pre, of True] run
  have "0 \<le> read_gaps_score scoring_ex (unat (21 :: 64 word)) 2 \<and>
        read_gaps_score scoring_ex (unat (21 :: 64 word)) (2 + 1) < 0"
    by auto
  with fits pre conds run show ?thesis by blast
qed

text \<open>
  C3. The claim: for every \<open>min_score\<close> and \<open>read_len\<close> with
  \<open>read_len * match \<ge> min_score\<close> the value returned is the boundary. On the code this
  fails where the product leaves \<open>int64_t\<close>: for \<open>match = 2\<close>, a read length of \<open>2^62\<close>
  and \<open>min_score = 2^63 - 1\<close> the precondition holds (\<open>2^63 \<ge> 2^63 - 1\<close>), but the
  product wraps to \<open>- 2^63\<close>, so that an assert-enabled build fails \<open>assert_geq\<close> and a
  build without assertions returns \<open>- 1\<close>, although already the score without any gap
  (\<open>k + 1 = 0\<close> gaps) is not below \<open>min_score\<close>.
\<close>

theorem maxReadGaps_product_wraps:
  "(9223372036854775807 :: int) \<le> int (unat (4611686018427387904 :: 64 word)) * match scoring_match2
   \<and> maxReadGaps True scoring_match2 9223372036854775807 4611686018427387904 = Inl AssertFail
   \<and> maxReadGaps False scoring_match2 9223372036854775807 4611686018427387904 = Inr (- 1)
   \<and> 9223372036854775807 \<le> read_gaps_score scoring_match2 (unat (4611686018427387904 :: 64 word)) (- 1 + 1)"
  by (simp add: maxReadGaps_def scoring_match2_def scoring_ex_def maxReadGaps_loop.simps
      assertE_def bindE_def read_gaps_score_def)

subsection \<open>maxRefGaps and the algorithm of the specification\<close>

lemma maxRefGaps_loop_stop: "sc < minsc \<Longrightarrow> maxRefGaps_loop s minsc sc first num = Inr num"
  by (subst maxRefGaps_loop.simps) simp

lemma maxRefGaps_loop_step:
  assumes go: "minsc \<le> sc" and run: "maxRefGaps_loop s minsc sc first num = Inr r"
  shows "in_int64 (sc - (if first then refGapOpen s else refGapExtend s))
       \<and> in_int32 (num + 1)
       \<and> maxRefGaps_loop s minsc
            (sc - (if first then refGapOpen s else refGapExtend s)) False (num + 1) = Inr r"
  using run go by (subst (asm) maxRefGaps_loop.simps) (simp split: if_splits)

lemma maxRefGaps_loop_Inl:
  "maxRefGaps_loop s minsc sc first num = Inl e \<Longrightarrow> e = SignedOverflow"
proof (induction s minsc sc first num rule: maxRefGaps_loop.induct)
  case (1 s minsc sc first num)
  from "1.prems" show ?case
    by (subst (asm) maxRefGaps_loop.simps) (auto split: if_splits dest: "1.IH")
qed

lemma maxRefGaps_loop_int:
  "maxRefGaps_loop s minsc sc first num = Inr r \<Longrightarrow> in_int32 num \<Longrightarrow> num \<le> r \<and> in_int32 r"
proof (induction s minsc sc first num rule: maxRefGaps_loop.induct)
  case (1 s minsc sc first num)
  show ?case
  proof (cases "minsc \<le> sc")
    case False
    with "1.prems" show ?thesis by (simp add: maxRefGaps_loop_stop)
  next
    case True
    from maxRefGaps_loop_step[OF True "1.prems"(1)] "1.IH" True show ?thesis by fastforce
  qed
qed

lemma maxRefGaps_loop_spec:
  "maxRefGaps_loop s minsc sc first num = Inr r \<Longrightarrow> (first \<longleftrightarrow> num = 0) \<Longrightarrow> 0 \<le> num \<Longrightarrow>
   spec_count_gaps 0 (refGapOpen s) (refGapExtend s) minsc sc num = Some r"
proof (induction s minsc sc first num rule: maxRefGaps_loop.induct)
  case (1 s minsc sc first num)
  show ?case
  proof (cases "minsc \<le> sc")
    case False
    with "1.prems"(1) show ?thesis
      by (subst spec_count_gaps.simps) (simp add: maxRefGaps_loop_stop)
  next
    case True
    let ?sc' = "sc - (if first then refGapOpen s else refGapExtend s)"
    from maxRefGaps_loop_step[OF True "1.prems"(1)]
    have ok: "in_int64 ?sc'" "in_int32 (num + 1)"
      and run: "maxRefGaps_loop s minsc ?sc' False (num + 1) = Inr r"
      by simp_all
    have "spec_count_gaps 0 (refGapOpen s) (refGapExtend s) minsc ?sc' (num + 1) = Some r"
      using "1.IH" True ok run "1.prems"(3) by simp
    then have "spec_count_gaps 0 (refGapOpen s) (refGapExtend s) minsc
                 (sc - 0 - (if num = 0 then refGapOpen s else refGapExtend s)) (num + 1) = Some r"
      using "1.prems"(2) by simp
    with True show ?thesis by (subst spec_count_gaps.simps) simp
  qed
qed

lemma spec_count_gaps_mono:
  assumes run: "spec_count_gaps mt go ge minsc sc num = Some r"
  shows "(minsc \<le> sc \<longrightarrow> num < r) \<and> num \<le> r"
proof (rule spec_count_gaps.raw_induct
    [where P = "\<lambda>mt go ge minsc sc num r. (minsc \<le> sc \<longrightarrow> num < r) \<and> num \<le> r", OF _ run])
  fix loop :: "int \<Rightarrow> int \<Rightarrow> int \<Rightarrow> int \<Rightarrow> int \<Rightarrow> int \<Rightarrow> int option"
  fix mt go ge minsc sc num r :: int
  assume IH: "\<And>mt go ge minsc sc num r. loop mt go ge minsc sc num = Some r \<Longrightarrow>
        (minsc \<le> sc \<longrightarrow> num < r) \<and> num \<le> r"
    and step: "(if sc < minsc then Some num
      else loop mt go ge minsc (sc - mt - (if num = 0 then go else ge)) (num + 1)) = Some r"
  show "(minsc \<le> sc \<longrightarrow> num < r) \<and> num \<le> r"
  proof (cases "sc < minsc")
    case True
    with step show ?thesis by simp
  next
    case False
    with step have "loop mt go ge minsc (sc - mt - (if num = 0 then go else ge)) (num + 1) = Some r"
      by simp
    from IH[OF this] show ?thesis by simp
  qed
qed

lemma maxRefGaps_loop_returns:
  assumes pos: "0 < refGapExtend s" and lo: "- (2 ^ 63) \<le> minsc - refGapExtend s"
  shows "sc < 2 ^ 63 \<Longrightarrow> 0 \<le> num \<Longrightarrow> (minsc \<le> sc \<longrightarrow> num + (sc - minsc + 1) < 2 ^ 31) \<Longrightarrow>
         \<exists>r. maxRefGaps_loop s minsc sc False num = Inr r"
proof (induction "nat (sc - minsc + 1)" arbitrary: sc num rule: less_induct)
  case less
  show ?case
  proof (cases "minsc \<le> sc")
    case False
    then show ?thesis by (simp add: maxRefGaps_loop_stop)
  next
    case True
    let ?sc' = "sc - refGapExtend s"
    have r2: "in_int64 ?sc'" using True pos lo less.prems(1) by (simp add: in_int64_def)
    have r3: "in_int32 (num + 1)" using True less.prems(2,3) by (simp add: in_int32_def)
    have d: "nat (?sc' - minsc + 1) < nat (sc - minsc + 1)" using True pos by linarith
    have "\<exists>r. maxRefGaps_loop s minsc ?sc' False (num + 1) = Inr r"
    proof (rule less.hyps[OF d])
      show "?sc' < 2 ^ 63" using pos less.prems(1) by linarith
      show "0 \<le> num + 1" using less.prems(2) by simp
      show "minsc \<le> ?sc' \<longrightarrow> num + 1 + (?sc' - minsc + 1) < 2 ^ 31"
        using True pos less.prems(3) by linarith
    qed
    then show ?thesis using True r2 r3 by (subst maxRefGaps_loop.simps) simp
  qed
qed

lemma maxRefGaps_outcome:
  assumes fits: "in_int64 (int (unat rdlen) * match s)"
    and pre: "minsc \<le> int (unat rdlen) * match s"
  shows "maxRefGaps dbg s minsc rdlen = Inl SignedOverflow \<or>
         (\<exists>k. maxRefGaps dbg s minsc rdlen = Inr k \<and>
              spec_max_gaps 0 (refGapOpen s) (refGapExtend s) (int (unat rdlen) * match s) minsc
                = Some k)"
proof -
  let ?sc = "int (unat rdlen) * match s"
  have sc: "sint (rdlen * word_of_int (match s)) = ?sc" by (rule sint_size_product[OF fits])
  have unf: "maxRefGaps dbg s minsc rdlen =
      bindE (maxRefGaps_loop s minsc ?sc True 0) (\<lambda>num. assertE dbg (num > 0) (Inr (num - 1)))"
    using pre by (simp add: maxRefGaps_def Let_def sc assertE_def)
  show ?thesis
  proof (cases "maxRefGaps_loop s minsc ?sc True 0")
    case (Inl e)
    with maxRefGaps_loop_Inl[OF Inl] show ?thesis by (simp add: unf bindE_def)
  next
    case (Inr r)
    from maxRefGaps_loop_spec[OF Inr]
    have sp: "spec_count_gaps 0 (refGapOpen s) (refGapExtend s) minsc ?sc 0 = Some r" by simp
    from spec_count_gaps_mono[OF sp] pre have r1: "0 < r" by simp
    have "maxRefGaps dbg s minsc rdlen = Inr (r - 1)"
      using Inr r1 by (simp add: unf bindE_def assertE_def)
    with sp show ?thesis by (simp add: spec_max_gaps_def)
  qed
qed

text \<open>The value that \<open>maxRefGaps\<close> returns is an \<open>int\<close>.\<close>

lemma maxRefGaps_result_int:
  assumes res: "maxRefGaps dbg s minsc rdlen = Inr k"
  shows "- 1 \<le> k \<and> in_int32 k"
proof -
  let ?sc = "sint (rdlen * word_of_int (match s))"
  from res obtain r where loop: "maxRefGaps_loop s minsc ?sc True 0 = Inr r" and k: "k = r - 1"
    by (cases "maxRefGaps_loop s minsc ?sc True 0")
      (auto simp add: maxRefGaps_def Let_def assertE_def bindE_def split: if_splits)
  from maxRefGaps_loop_int[OF loop] have "0 \<le> r \<and> in_int32 r" by (simp add: in_int32_def)
  with k show ?thesis by (simp add: in_int32_def)
qed

lemma maxRefGaps_returns:
  assumes fits: "in_int64 (int (unat rdlen) * match s)"
    and pre: "minsc \<le> int (unat rdlen) * match s"
    and go: "0 \<le> refGapOpen s" and pos: "0 < refGapExtend s"
    and lo1: "- (2 ^ 63) \<le> minsc - refGapOpen s"
    and lo2: "- (2 ^ 63) \<le> minsc - refGapExtend s"
    and cnt: "int (unat rdlen) * match s - minsc < 2 ^ 31 - 2"
  shows "\<exists>k. maxRefGaps dbg s minsc rdlen = Inr k"
proof -
  let ?sc = "int (unat rdlen) * match s"
  let ?sc1 = "?sc - refGapOpen s"
  have sc: "sint (rdlen * word_of_int (match s)) = ?sc" by (rule sint_size_product[OF fits])
  have unf: "maxRefGaps dbg s minsc rdlen =
      bindE (maxRefGaps_loop s minsc ?sc True 0) (\<lambda>num. assertE dbg (num > 0) (Inr (num - 1)))"
    using pre by (simp add: maxRefGaps_def Let_def sc assertE_def)
  have "\<exists>r. maxRefGaps_loop s minsc ?sc1 False 1 = Inr r"
  proof (rule maxRefGaps_loop_returns[OF pos lo2])
    show "?sc1 < 2 ^ 63" using fits go by (simp add: in_int64_def)
    show "(0::int) \<le> 1" by simp
    show "minsc \<le> ?sc1 \<longrightarrow> 1 + (?sc1 - minsc + 1) < 2 ^ 31" using cnt go by linarith
  qed
  then obtain r where r: "maxRefGaps_loop s minsc ?sc1 False 1 = Inr r" by blast
  have r2: "in_int64 ?sc1" using fits pre go lo1 by (simp add: in_int64_def)
  have first: "maxRefGaps_loop s minsc ?sc True 0 = Inr r"
    using pre r r2 by (subst maxRefGaps_loop.simps) (simp add: in_int32_def)
  from maxRefGaps_outcome[OF fits pre, of dbg] first show ?thesis
    by (auto simp add: unf bindE_def assertE_def split: if_splits)
qed

text \<open>
  C2, amended. Let \<open>read_len * match\<close> be representable in \<open>int64_t\<close> and at least
  \<open>min_score\<close>. Then no assertion of \<open>maxRefGaps\<close> fails, and a value that it returns is
  what the specification's algorithm computes when nothing but the gap cost is subtracted per
  gap (the \<open>match\<close> bonus is not): it starts from \<open>read_len * match\<close>, subtracts the
  reference-gap open cost for the first gap and the extend cost for each further gap until
  the score is below \<open>min_score\<close>, and returns the count minus one. The only other outcome
  is a signed overflow in the loop. It does return a value when the open cost is not
  negative, the extend cost is positive, one more gap below \<open>min_score\<close> is still an
  \<open>int64_t\<close>, and \<open>read_len * match - min_score\<close> is below \<open>2^31 - 2\<close>, so that the
  counter stays an \<open>int\<close>.
\<close>

theorem maxRefGaps_spec_without_match:
  assumes fits: "in_int64 (int (unat rdlen) * match s)"
    and pre: "minsc \<le> int (unat rdlen) * match s"
  shows "(maxRefGaps dbg s minsc rdlen = Inl SignedOverflow \<or>
          (\<exists>k. maxRefGaps dbg s minsc rdlen = Inr k \<and>
               spec_max_gaps 0 (refGapOpen s) (refGapExtend s) (int (unat rdlen) * match s) minsc
                 = Some k))
       \<and> (0 \<le> refGapOpen s \<and> 0 < refGapExtend s \<and>
          - (2 ^ 63) \<le> minsc - refGapOpen s \<and> - (2 ^ 63) \<le> minsc - refGapExtend s \<and>
          int (unat rdlen) * match s - minsc < 2 ^ 31 - 2 \<longrightarrow>
          (\<exists>k. maxRefGaps dbg s minsc rdlen = Inr k))"
  using maxRefGaps_outcome[OF fits pre] maxRefGaps_returns[OF fits pre] by blast

text \<open>
  A read of 15 bases under the example scheme and \<open>min_score = 0\<close>: one reference gap
  scores \<open>15 - 15 = 0\<close>, and both sides are 1.
\<close>

theorem maxRefGaps_spec_without_match_witness:
  "in_int64 (int (unat (15 :: 64 word)) * match scoring_ex)
   \<and> (0::int) \<le> int (unat (15 :: 64 word)) * match scoring_ex
   \<and> 0 \<le> refGapOpen scoring_ex \<and> 0 < refGapExtend scoring_ex
   \<and> - (2 ^ 63) \<le> 0 - refGapOpen scoring_ex \<and> - (2 ^ 63) \<le> 0 - refGapExtend scoring_ex
   \<and> int (unat (15 :: 64 word)) * match scoring_ex - 0 < 2 ^ 31 - 2
   \<and> maxRefGaps True scoring_ex 0 15 = Inr 1
   \<and> spec_max_gaps 0 (refGapOpen scoring_ex) (refGapExtend scoring_ex)
        (int (unat (15 :: 64 word)) * match scoring_ex) 0 = Some 1"
proof -
  have fits: "in_int64 (int (unat (15 :: 64 word)) * match scoring_ex)"
    by (simp add: scoring_ex_def in_int64_def)
  have pre: "(0::int) \<le> int (unat (15 :: 64 word)) * match scoring_ex" by (simp add: scoring_ex_def)
  have run: "maxRefGaps True scoring_ex 0 15 = Inr 1"
    by (simp add: maxRefGaps_def scoring_ex_def maxRefGaps_loop.simps assertE_def bindE_def
        in_int64_def in_int32_def)
  have conds: "0 \<le> refGapOpen scoring_ex \<and> 0 < refGapExtend scoring_ex
      \<and> - (2 ^ 63) \<le> 0 - refGapOpen scoring_ex \<and> - (2 ^ 63) \<le> 0 - refGapExtend scoring_ex
      \<and> int (unat (15 :: 64 word)) * match scoring_ex - 0 < 2 ^ 31 - 2"
    by (simp add: scoring_ex_def)
  from maxRefGaps_spec_without_match[OF fits pre, of True] run
  have "spec_max_gaps 0 (refGapOpen scoring_ex) (refGapExtend scoring_ex)
          (int (unat (15 :: 64 word)) * match scoring_ex) 0 = Some 1"
    by auto
  with fits pre conds run show ?thesis by blast
qed

text \<open>
  C2. The claim: under the precondition, \<open>maxRefGaps\<close> returns the value of the
  specification's algorithm, which subtracts one \<open>match\<close> and then the gap cost per gap.
  On the code this fails twice. For \<open>min_score = 0\<close>, a read of 15 bases, \<open>match = 1\<close>,
  open cost 15 and extend cost 4 (the first test case of scoring.cpp, which asserts the
  value 1) \<open>maxRefGaps\<close> returns 1 and the specification's algorithm 0. And for
  \<open>match = 2\<close>, a read length of \<open>2^62\<close> and \<open>min_score = 2^63 - 1\<close> the precondition
  holds and the specification's algorithm returns 0, with or without the \<open>match\<close>
  subtraction, but the product wraps to \<open>- 2^63\<close>: an assert-enabled build fails
  \<open>assert_geq\<close> and a build without assertions returns \<open>- 1\<close>.
\<close>

theorem maxRefGaps_differs_from_spec:
  "maxRefGaps True scoring_ex 0 15 = Inr 1
   \<and> spec_max_gaps (match scoring_ex) (refGapOpen scoring_ex) (refGapExtend scoring_ex)
        (int (unat (15 :: 64 word)) * match scoring_ex) 0 = Some 0
   \<and> (9223372036854775807 :: int) \<le> int (unat (4611686018427387904 :: 64 word)) * match scoring_match2
   \<and> maxRefGaps True scoring_match2 9223372036854775807 4611686018427387904 = Inl AssertFail
   \<and> maxRefGaps False scoring_match2 9223372036854775807 4611686018427387904 = Inr (- 1)
   \<and> spec_max_gaps (match scoring_match2) (refGapOpen scoring_match2) (refGapExtend scoring_match2)
        (int (unat (4611686018427387904 :: 64 word)) * match scoring_match2) 9223372036854775807 = Some 0
   \<and> spec_max_gaps 0 (refGapOpen scoring_match2) (refGapExtend scoring_match2)
        (int (unat (4611686018427387904 :: 64 word)) * match scoring_match2) 9223372036854775807 = Some 0"
  by (simp add: maxRefGaps_def scoring_match2_def scoring_ex_def maxRefGaps_loop.simps
      assertE_def bindE_def spec_max_gaps_def spec_count_gaps.simps in_int64_def in_int32_def)

section \<open>The N filter\<close>

subsection \<open>The rounding of binary32\<close>

lemma round_half_even_of_int [simp]: "round_half_even (of_int k) = k"
  by (simp add: round_half_even_def)

lemma round_half_even_numeral [simp]: "round_half_even (numeral k) = numeral k"
  using round_half_even_of_int[of "numeral k"] by simp

lemma f32_round_eq:
  assumes lo: "2 powr of_int e \<le> \<bar>x\<bar>" and hi: "\<bar>x\<bar> < 2 powr (of_int e + 1)" and e: "- 126 \<le> e"
  shows "f32_round x = 2 powr (of_int e - 23) * of_int (round_half_even (x / 2 powr (of_int e - 23)))"
proof -
  have "0 < 2 powr (of_int e :: real)" by simp
  with lo have pos: "0 < \<bar>x\<bar>" by linarith
  then have nz: "x \<noteq> 0" by simp
  have "\<lfloor>log 2 \<bar>x\<bar>\<rfloor> = e"
    using lo hi pos by (simp add: floor_log_eq_powr_iff)
  with nz e show ?thesis by (simp add: f32_round_def Let_def max_def)
qed

lemma f32_round_nat:
  assumes n: "n \<le> 2 ^ 24"
  shows "f32_round (real n) = real n"
proof (cases "n = 0")
  case True
  then show ?thesis by (simp add: f32_round_def)
next
  case False
  then have pos: "0 < real n" by simp
  define e where "e = \<lfloor>log 2 (real n)\<rfloor>"
  have b: "2 powr of_int e \<le> real n \<and> real n < 2 powr (of_int e + 1)"
    using pos floor_log_eq_powr_iff[of "real n" 2 e] by (simp add: e_def)
  have e0: "0 \<le> e"
  proof (rule ccontr)
    assume "\<not> 0 \<le> e"
    then have "real_of_int e + 1 \<le> 0" by linarith
    then have "2 powr (real_of_int e + 1) \<le> 1"
      using powr_le_cancel_iff[of 2 "real_of_int e + 1" 0] by simp
    with b have "real n < 1" by linarith
    with False show False by simp
  qed
  have "2 powr real_of_int e \<le> 2 ^ 24"
  proof -
    have "real n \<le> 2 ^ 24" using n by (metis of_nat_le_iff of_nat_numeral of_nat_power)
    with b show ?thesis by linarith
  qed
  moreover have "(2::real) powr 24 = 2 ^ 24" by simp
  ultimately have "2 powr real_of_int e \<le> 2 powr (24::real)" by (simp only:)
  then have "real_of_int e \<le> 24" by (simp only: powr_le_cancel_iff)
  then have e24: "e \<le> 24" by simp
  have r: "f32_round (real n) =
      2 powr (of_int e - 23) * of_int (round_half_even (real n / 2 powr (of_int e - 23)))"
    using b e0 by (intro f32_round_eq) simp_all
  show ?thesis
  proof (cases "e = 24")
    case True
    with b have "2 ^ 24 \<le> real n" by simp
    moreover have "real n \<le> 2 ^ 24" using n by (metis of_nat_le_iff of_nat_numeral of_nat_power)
    ultimately have nn: "real n = 16777216" by simp
    have "real n / 2 = of_int 8388608" unfolding nn by simp
    then show ?thesis using r True nn by simp
  next
    case False
    with e24 have e23: "e \<le> 23" by simp
    define k where "k = nat (23 - e)"
    have ek: "real_of_int e - 23 = - real k" using e23 by (simp add: k_def)
    have u: "2 powr (real_of_int e - 23) = inverse (2 ^ k)"
      unfolding ek by (simp add: powr_minus powr_realpow)
    have q: "real n / 2 powr (real_of_int e - 23) = of_int (int n * 2 ^ k)"
      unfolding u by (simp add: divide_inverse)
    show ?thesis unfolding r q round_half_even_of_int unfolding u by simp
  qed
qed

lemma f32_exact_f32_round: "f32_exact f32_round"
  by (simp add: f32_exact_def f32_round_nat)

lemma f32_round_numeral:
  "numeral k \<le> (16777216::nat) \<Longrightarrow> f32_round (numeral k) = numeral k"
  using f32_round_nat[of "numeral k"] by simp

lemma f32_round_0: "f32_round 0 = 0"
  by (simp add: f32_round_def)

lemma f32_round_1: "f32_round 1 = 1"
  using f32_round_nat[of 1] by simp

text \<open>
  Beyond \<open>2^24\<close> the integers are no longer all representable: \<open>2^24 + 1\<close> lies halfway
  between \<open>2^24\<close> and \<open>2^24 + 2\<close> and is rounded to the even one.
\<close>

lemma f32_round_saturates: "f32_round 16777217 = 16777216"
proof -
  have "f32_round 16777217 =
      2 powr (of_int 24 - 23) * of_int (round_half_even (16777217 / 2 powr (of_int 24 - 23)))"
    by (rule f32_round_eq) simp_all
  moreover have "\<lfloor>16777217 / 2 :: real\<rfloor> = 8388608" by linarith
  ultimately show ?thesis by (simp add: round_half_even_def Let_def)
qed

text \<open>
  The product \<open>0.7f * 10\<close>: exactly \<open>117440510 / 2^24 = 6.99999988...\<close>, which lies
  between the neighbouring binary32 values \<open>7 - 2^(-21)\<close> and \<open>7\<close> and is rounded to 7.
\<close>

lemma f32_round_seven_tenths: "f32_round (11744051 / 16777216 * 10) = 7"
proof -
  have "f32_round (11744051 / 16777216 * 10) =
      2 powr (of_int 2 - 23) * of_int (round_half_even (11744051 / 16777216 * 10 / 2 powr (of_int 2 - 23)))"
    by (rule f32_round_eq) simp_all
  moreover have p: "2 powr (- 21 :: real) = 1 / 2097152"
    by (simp add: powr_minus_divide)
  moreover have "\<lfloor>11744051 / 16777216 * 10 * 2097152 :: real\<rfloor> = 14680063" by linarith
  ultimately show ?thesis by (simp add: round_half_even_def Let_def)
qed

lemma f32_round_seven_tenths_normal: "f32_round (58720255 / 8388608) = 7"
  using f32_round_seven_tenths by simp

lemmas f32_eval = f32_round_numeral f32_round_0 f32_round_1 nCeil_f32_def f32_add_def
  f32_mul_def f32_of_size_def

subsection \<open>nFilter\<close>

lemma count_Ns_Nil [simp]: "count_Ns [] = 0"
  by (simp add: count_Ns_def)

lemma count_Ns_Cons [simp]: "count_Ns (b # bs) = (if b = 4 then 1 else 0) + count_Ns bs"
  by (simp add: count_Ns_def)

lemma count_Ns_append: "count_Ns (xs @ ys) = count_Ns xs + count_Ns ys"
  by (simp add: count_Ns_def)

lemma count_Ns_replicate: "count_Ns (replicate n 4) = n"
  by (simp add: count_Ns_def)

lemma count_Ns_mate_sat: "count_Ns mate_sat = 16777216"
  unfolding mate_sat_def by (rule count_Ns_replicate)

lemma mate_sat_nonempty: "mate_sat \<noteq> []"
  using count_Ns_mate_sat by auto

lemma count_Ns_take_le: "count_Ns (take j rd) \<le> count_Ns rd"
proof -
  have "count_Ns rd = count_Ns (take j rd) + count_Ns (drop j rd)"
    by (metis append_take_drop_id count_Ns_append)
  then show ?thesis by simp
qed

lemma f32_exactD: "f32_exact rnd \<Longrightarrow> n \<le> 2 ^ 24 \<Longrightarrow> rnd (real n) = real n"
  by (simp add: f32_exact_def)

lemma nFilter_loop_no_Ns: "count_Ns rd = 0 \<Longrightarrow> nFilter_loop rnd maxns ns rd = True"
  by (induction rd) (auto split: if_splits)

lemma nFilter_loop_exact:
  assumes ex: "f32_exact rnd"
  shows "k + count_Ns rd \<le> 2 ^ 24 \<Longrightarrow> real k \<le> maxns \<Longrightarrow>
         nFilter_loop rnd maxns (real k) rd = (real (k + count_Ns rd) \<le> maxns)"
proof (induction rd arbitrary: k)
  case Nil
  then show ?case by simp
next
  case (Cons b bs)
  show ?case
  proof (cases "b = 4")
    case False
    with Cons show ?thesis by simp
  next
    case True
    with Cons.prems have k1: "Suc k \<le> 2 ^ 24" by simp
    have inc: "f32_add rnd (real k) 1 = real (Suc k)"
      using f32_exactD[OF ex k1] by (simp add: f32_add_def add.commute)
    show ?thesis
    proof (cases "real (Suc k) \<le> maxns")
      case le: True
      have "nFilter_loop rnd maxns (real (Suc k)) bs = (real (Suc k + count_Ns bs) \<le> maxns)"
        using Cons.prems True le by (intro Cons.IH) simp_all
      with True le inc show ?thesis by simp
    next
      case gt: False
      then have "\<not> real (k + count_Ns (b # bs)) \<le> maxns" using True by simp
      with True gt inc show ?thesis by simp
    qed
  qed
qed

lemma nFilter_loop_prefix:
  assumes ex: "f32_exact rnd"
  shows "k + count_Ns xs \<le> 2 ^ 24 \<Longrightarrow> real (k + count_Ns xs) \<le> maxns \<Longrightarrow>
         nFilter_loop rnd maxns (real k) (xs @ ys) =
           nFilter_loop rnd maxns (real (k + count_Ns xs)) ys"
proof (induction xs arbitrary: k)
  case Nil
  then show ?case by simp
next
  case (Cons b bs)
  show ?case
  proof (cases "b = 4")
    case False
    with Cons show ?thesis by simp
  next
    case True
    with Cons.prems have k1: "Suc k \<le> 2 ^ 24" by simp
    have inc: "f32_add rnd (real k) 1 = real (Suc k)"
      using f32_exactD[OF ex k1] by (simp add: f32_add_def add.commute)
    have le: "real (Suc k) \<le> maxns" using Cons.prems(2) True by simp
    have "nFilter_loop rnd maxns (real (Suc k)) (bs @ ys) =
            nFilter_loop rnd maxns (real (Suc k + count_Ns bs)) ys"
      using Cons.prems True by (intro Cons.IH) simp_all
    with True le inc show ?thesis by simp
  qed
qed

lemma nFilter_exact:
  assumes ex: "f32_exact rnd" and ne: "rd \<noteq> []" and small: "count_Ns rd \<le> 2 ^ 24"
  shows "nFilter dbg rnd s rd =
           Inr (int (count_Ns rd) \<le>
                \<lfloor>max 0 (rnd (nCeilConst s + rnd (nCeilLinear s * rnd (real (length rd)))))\<rfloor>)"
proof -
  let ?c = "rnd (nCeilConst s + rnd (nCeilLinear s * rnd (real (length rd))))"
  have m: "nFilter_maxns rnd s (length rd) = max 0 ?c"
    by (simp add: nFilter_maxns_def nCeil_f32_def f32_add_def f32_mul_def f32_of_size_def
        Let_def max_def)
  have "nFilter_loop rnd (nFilter_maxns rnd s (length rd)) (real 0) rd
        = (real (0 + count_Ns rd) \<le> nFilter_maxns rnd s (length rd))"
    using small by (intro nFilter_loop_exact[OF ex]) (simp_all add: m)
  then have "nFilter_loop rnd (nFilter_maxns rnd s (length rd)) 0 rd
        = (int (count_Ns rd) \<le> \<lfloor>max 0 ?c\<rfloor>)"
    by (simp add: m le_floor_iff)
  then show ?thesis using ne by (simp add: nFilter_def assertE_def)
qed

text \<open>
  C4, amended. For a non-empty read: a read without Ns passes; and a read with at most
  \<open>2^24\<close> Ns passes if and only if the number of its Ns is at most
  \<open>\<lfloor>max(0, nCeilConst + nCeilLinear * read_length)\<rfloor>\<close>, where the ceiling is evaluated as
  the code evaluates it, in binary32: the length is converted, and the product and the sum
  are each rounded.
\<close>

theorem nFilter_ceiling:
  assumes ne: "rd \<noteq> []"
  shows "(count_Ns rd = 0 \<longrightarrow> nFilter dbg f32_round s rd = Inr True)
       \<and> (count_Ns rd \<le> 2 ^ 24 \<longrightarrow>
            nFilter dbg f32_round s rd =
              Inr (int (count_Ns rd) \<le>
                   \<lfloor>max 0 (f32_round (nCeilConst s +
                       f32_round (nCeilLinear s * f32_round (real (length rd)))))\<rfloor>))"
proof (intro conjI impI)
  assume "count_Ns rd = 0"
  then show "nFilter dbg f32_round s rd = Inr True"
    using ne by (simp add: nFilter_def assertE_def nFilter_loop_no_Ns)
next
  assume "count_Ns rd \<le> 2 ^ 24"
  then show "nFilter dbg f32_round s rd =
              Inr (int (count_Ns rd) \<le>
                   \<lfloor>max 0 (f32_round (nCeilConst s +
                       f32_round (nCeilLinear s * f32_round (real (length rd)))))\<rfloor>)"
    by (rule nFilter_exact[OF f32_exact_f32_round ne])
qed

text \<open>
  Reads of 8 bases under the example scheme, whose ceiling is \<open>\<lfloor>2 + 0.125 * 8\<rfloor> = 3\<close>: a
  read with 3 Ns passes and a read with 4 Ns is rejected.
\<close>

theorem nFilter_ceiling_witness:
  "[4, 0, 4, 4, 0, 0, 0, 0] \<noteq> ([] :: 8 word list)
   \<and> count_Ns [4, 0, 4, 4, 0, 0, 0, 0] = 3 \<and> count_Ns [4, 0, 4, 4, 0, 0, 0, 0] \<le> 2 ^ 24
   \<and> \<lfloor>max 0 (f32_round (nCeilConst scoring_ex +
         f32_round (nCeilLinear scoring_ex * f32_round (real (length [4 :: 8 word, 0, 4, 4, 0, 0, 0, 0])))))\<rfloor> = 3
   \<and> nFilter True f32_round scoring_ex [4, 0, 4, 4, 0, 0, 0, 0] = Inr True
   \<and> [4, 4, 4, 4, 0, 0, 0, 0] \<noteq> ([] :: 8 word list)
   \<and> count_Ns [4, 4, 4, 4, 0, 0, 0, 0] = 4 \<and> count_Ns [4, 4, 4, 4, 0, 0, 0, 0] \<le> 2 ^ 24
   \<and> \<lfloor>max 0 (f32_round (nCeilConst scoring_ex +
         f32_round (nCeilLinear scoring_ex * f32_round (real (length [4 :: 8 word, 4, 4, 4, 0, 0, 0, 0])))))\<rfloor> = 3
   \<and> nFilter True f32_round scoring_ex [4, 4, 4, 4, 0, 0, 0, 0] = Inr False"
proof -
  let ?rd = "[4, 0, 4, 4, 0, 0, 0, 0] :: 8 word list"
  let ?rd' = "[4, 4, 4, 4, 0, 0, 0, 0] :: 8 word list"
  have ne: "?rd \<noteq> []" and ne': "?rd' \<noteq> []" by simp_all
  have c: "count_Ns ?rd = 3" and c': "count_Ns ?rd' = 4" by simp_all
  have small: "count_Ns ?rd \<le> 2 ^ 24" and small': "count_Ns ?rd' \<le> 2 ^ 24" by simp_all
  have fl: "\<lfloor>max 0 (f32_round (nCeilConst scoring_ex +
         f32_round (nCeilLinear scoring_ex * f32_round (real (length ?rd)))))\<rfloor> = 3"
    by (simp add: scoring_ex_def f32_round_numeral f32_round_1)
  have fl': "\<lfloor>max 0 (f32_round (nCeilConst scoring_ex +
         f32_round (nCeilLinear scoring_ex * f32_round (real (length ?rd')))))\<rfloor> = 3"
    by (simp add: scoring_ex_def f32_round_numeral f32_round_1)
  from nFilter_ceiling[OF ne, of True scoring_ex] small
  have "nFilter True f32_round scoring_ex ?rd =
          Inr (int (count_Ns ?rd) \<le> \<lfloor>max 0 (f32_round (nCeilConst scoring_ex +
             f32_round (nCeilLinear scoring_ex * f32_round (real (length ?rd)))))\<rfloor>)"
    by blast
  then have pass: "nFilter True f32_round scoring_ex ?rd = Inr True"
    unfolding fl c by simp
  from nFilter_ceiling[OF ne', of True scoring_ex] small'
  have "nFilter True f32_round scoring_ex ?rd' =
          Inr (int (count_Ns ?rd') \<le> \<lfloor>max 0 (f32_round (nCeilConst scoring_ex +
             f32_round (nCeilLinear scoring_ex * f32_round (real (length ?rd')))))\<rfloor>)"
    by blast
  then have fail: "nFilter True f32_round scoring_ex ?rd' = Inr False"
    unfolding fl' c' by simp
  from ne c small fl pass ne' c' small' fl' fail show ?thesis by blast
qed

text \<open>
  C4. The claim: for every non-empty read, \<open>nFilter\<close> returns true if and only if the
  number of Ns is at most \<open>\<lfloor>max(0, nCeilConst + nCeilLinear * read_length)\<rfloor>\<close>. On the code
  this fails twice, because the ceiling and the counter are \<open>float\<close>s. A read of
  \<open>2^24 + 1\<close> Ns (\<open>mate_sat\<close> and one more N) passes the ceiling \<open>2^24 + 0 * len\<close>,
  which is \<open>2^24\<close> in exact and in binary32 arithmetic alike: the counter stays at \<open>2^24\<close>,
  since \<open>2^24 + 1\<close> is rounded back to it. And a read of 10 bases with 7 Ns passes the
  ceiling \<open>0 + 0.7f * len\<close>, whose value is \<open>6.99999988...\<close> and whose integer part is 6:
  the \<open>float\<close> product is rounded to 7.
\<close>

theorem nFilter_differs_from_ceiling:
  "mate_sat @ [4] \<noteq> []
   \<and> nFilter True f32_round scoring_sat (mate_sat @ [4]) = Inr True
   \<and> count_Ns (mate_sat @ [4]) = 16777217
   \<and> \<lfloor>max 0 (nCeilConst scoring_sat +
         nCeilLinear scoring_sat * real (length (mate_sat @ [4])))\<rfloor> = 16777216
   \<and> \<lfloor>max 0 (f32_round (nCeilConst scoring_sat +
         f32_round (nCeilLinear scoring_sat * f32_round (real (length (mate_sat @ [4]))))))\<rfloor> = 16777216
   \<and> nFilter True f32_round scoring_tenths [4, 4, 4, 4, 4, 4, 4, 0, 0, 0] = Inr True
   \<and> count_Ns [4, 4, 4, 4, 4, 4, 4, 0, 0, 0] = 7
   \<and> \<lfloor>max 0 (nCeilConst scoring_tenths +
         nCeilLinear scoring_tenths * real (length [4 :: 8 word, 4, 4, 4, 4, 4, 4, 0, 0, 0]))\<rfloor> = 6"
proof -
  have m: "nFilter_maxns f32_round scoring_sat n = 16777216" for n
    by (simp add: nFilter_maxns_def scoring_sat_def scoring_ex_def f32_eval)
  have "nFilter_loop f32_round 16777216 (real 0) (mate_sat @ [4]) =
          nFilter_loop f32_round 16777216 (real (0 + count_Ns mate_sat)) [4]"
    by (rule nFilter_loop_prefix[OF f32_exact_f32_round]) (simp_all add: count_Ns_mate_sat)
  then have "nFilter_loop f32_round 16777216 0 (mate_sat @ [4]) = True"
    by (simp add: count_Ns_mate_sat f32_add_def f32_round_saturates)
  then have a: "nFilter True f32_round scoring_sat (mate_sat @ [4]) = Inr True"
    by (simp add: nFilter_def assertE_def m)
  have b: "\<lfloor>max 0 (nCeilConst scoring_sat +
         nCeilLinear scoring_sat * real (length (mate_sat @ [4])))\<rfloor> = 16777216"
    by (simp add: scoring_sat_def scoring_ex_def)
  have b': "\<lfloor>max 0 (f32_round (nCeilConst scoring_sat +
         f32_round (nCeilLinear scoring_sat * f32_round (real (length (mate_sat @ [4]))))))\<rfloor> = 16777216"
    by (simp add: scoring_sat_def scoring_ex_def f32_round_0 f32_round_numeral)
  have m7: "nFilter_maxns f32_round scoring_tenths (length [4 :: 8 word, 4, 4, 4, 4, 4, 4, 0, 0, 0]) = 7"
    by (simp add: nFilter_maxns_def scoring_tenths_def scoring_ex_def f32_eval
        f32_round_seven_tenths_normal)
  have c: "nFilter True f32_round scoring_tenths [4, 4, 4, 4, 4, 4, 4, 0, 0, 0] = Inr True"
    unfolding nFilter_def Let_def m7
    by (simp add: assertE_def f32_add_def f32_round_numeral f32_round_1)
  have d: "\<lfloor>max 0 (nCeilConst scoring_tenths +
         nCeilLinear scoring_tenths * real (length [4 :: 8 word, 4, 4, 4, 4, 4, 4, 0, 0, 0]))\<rfloor> = 6"
    by (simp add: scoring_tenths_def scoring_ex_def)
  from a b b' c d show ?thesis by (simp add: count_Ns_append count_Ns_mate_sat)
qed

text \<open>
  C10. \<open>nFilter\<close> asserts that the read is not empty: on the empty read an assert-enabled
  build fails the assertion (a build without assertions returns true), and on every
  non-empty read the assertion holds and \<open>nFilter\<close> returns a verdict, the same in both
  builds.
\<close>

theorem nFilter_nonempty_precondition:
  "nFilter True rnd s [] = Inl AssertFail \<and> nFilter False rnd s [] = Inr True
   \<and> (rd \<noteq> [] \<longrightarrow> (\<exists>b. \<forall>dbg. nFilter dbg rnd s rd = Inr b))"
  by (auto simp add: nFilter_def assertE_def)

text \<open>
  The empty read and a read of two bases under the example scheme.
\<close>

theorem nFilter_nonempty_precondition_witness:
  "nFilter True (\<lambda>x. x) scoring_ex [] = Inl AssertFail \<and> [4, 0] \<noteq> ([] :: 8 word list)
   \<and> (\<exists>b. \<forall>dbg. nFilter dbg (\<lambda>x. x) scoring_ex [4, 0] = Inr b)"
  using nFilter_nonempty_precondition[of "\<lambda>x. x" scoring_ex "[4, 0]"] by simp

subsection \<open>nFilterPair\<close>

lemma never_exceeds_Nil [simp]: "never_exceeds maxns k []"
  by (simp add: never_exceeds_def)

lemma never_exceeds_Cons:
  "never_exceeds maxns k (b # bs) \<longleftrightarrow>
     real (k + (if b = 4 then 1 else 0)) \<le> maxns \<and> never_exceeds maxns (k + (if b = 4 then 1 else 0)) bs"
  by (simp add: never_exceeds_def All_less_Suc2 add.assoc)

lemma never_exceeds_total:
  assumes ne: "rd \<noteq> []"
  shows "never_exceeds maxns k rd \<longleftrightarrow> real (k + count_Ns rd) \<le> maxns"
proof
  assume h: "never_exceeds maxns k rd"
  from ne have "length rd - 1 < length rd" by simp
  with h have "real (k + count_Ns (take (Suc (length rd - 1)) rd)) \<le> maxns"
    unfolding never_exceeds_def by blast
  with ne show "real (k + count_Ns rd) \<le> maxns" by simp
next
  assume h: "real (k + count_Ns rd) \<le> maxns"
  show "never_exceeds maxns k rd"
    unfolding never_exceeds_def
  proof (intro allI impI)
    fix j assume "j < length rd"
    have "real (k + count_Ns (take (Suc j) rd)) \<le> real (k + count_Ns rd)"
      using count_Ns_take_le[of "Suc j" rd] by simp
    with h show "real (k + count_Ns (take (Suc j) rd)) \<le> maxns" by linarith
  qed
qed

lemma nFilterPair_loop_exact:
  assumes ex: "f32_exact rnd"
  shows "k + count_Ns rd \<le> 2 ^ 24 \<Longrightarrow>
         nFilterPair_loop rnd maxns k rd =
           (if never_exceeds maxns k rd then Some (k + count_Ns rd) else None)"
proof (induction rd arbitrary: k)
  case Nil
  then show ?case by simp
next
  case (Cons b bs)
  let ?k' = "k + (if b = 4 then 1 else 0)"
  from Cons.prems have small: "?k' + count_Ns bs \<le> 2 ^ 24" by simp
  then have "?k' \<le> 2 ^ 24" by linarith
  from f32_exactD[OF ex this] have conv: "f32_of_size rnd ?k' = real ?k'"
    by (simp only: f32_of_size_def)
  have step: "nFilterPair_loop rnd maxns k (b # bs) =
          (if f32_of_size rnd ?k' > maxns then None else nFilterPair_loop rnd maxns ?k' bs)"
  proof -
    have "(if b = 4 then k + 1 else k) = ?k'" by simp
    then show ?thesis by (simp only: nFilterPair_loop.simps Let_def)
  qed
  show ?case
    unfolding step conv Cons.IH[OF small] never_exceeds_Cons[of maxns k b bs]
    by (simp add: add.assoc not_less)
qed

lemma nFilterPair_loop_append:
  "nFilterPair_loop rnd maxns k (xs @ ys) =
     (case nFilterPair_loop rnd maxns k xs of None \<Rightarrow> None
      | Some k' \<Rightarrow> nFilterPair_loop rnd maxns k' ys)"
  by (induction xs arbitrary: k) (simp_all add: Let_def)

lemma nFilterPair_cat:
  assumes cat: "ncatpair s"
  shows "nFilterPair dbg rnd s (Some r1) (Some r2) =
           (let p = (nFilterPair_loop rnd
                       (rnd (nCeilConst s + rnd (nCeilLinear s * rnd (real (length r1 + length r2)))))
                       0 (r1 @ r2) \<noteq> None)
            in Inr (p, p))"
  using cat
  by (simp add: nFilterPair_def nFilterPair_maxns_def nFilterPair_loop_append Let_def
      nCeil_f32_def f32_add_def f32_mul_def f32_of_size_def split: option.splits)

lemma nFilterPair_nocat:
  assumes cat: "\<not> ncatpair s"
  shows "nFilterPair dbg rnd s (Some r1) (Some r2) =
           bindE (nFilter dbg rnd s r1) (\<lambda>filt1.
           bindE (nFilter dbg rnd s r2) (\<lambda>filt2. Inr (filt1, filt2)))"
  using cat by (simp add: nFilterPair_def)

text \<open>
  C5, amended. For two non-null reads. With \<open>ncatpair\<close> the two flags are equal in every
  case; and when the two reads have at most \<open>2^24\<close> Ns together, both mates pass if and only
  if the running total of Ns, checked after each base of mate 1 and then of mate 2, never
  exceeds the single ceiling \<open>nCeilConst + nCeilLinear * (len1 + len2)\<close>, which for a pair
  with at least one base means that the total number of Ns does not exceed it. The ceiling
  is evaluated as the code evaluates it, in binary32: the length is converted, and the
  product and the sum are each rounded. Without \<open>ncatpair\<close> the flags are \<open>nFilter(r1)\<close>
  and \<open>nFilter(r2)\<close>.
\<close>

theorem nFilterPair_flags:
  "(ncatpair s \<longrightarrow>
      (\<exists>p. nFilterPair dbg f32_round s (Some r1) (Some r2) = Inr (p, p) \<and>
           (count_Ns (r1 @ r2) \<le> 2 ^ 24 \<longrightarrow>
              (p \<longleftrightarrow> never_exceeds
                      (f32_round (nCeilConst s +
                         f32_round (nCeilLinear s * f32_round (real (length r1 + length r2)))))
                      0 (r1 @ r2)) \<and>
              (r1 @ r2 \<noteq> [] \<longrightarrow>
                 (p \<longleftrightarrow> real (count_Ns (r1 @ r2)) \<le>
                        f32_round (nCeilConst s +
                          f32_round (nCeilLinear s * f32_round (real (length r1 + length r2)))))))))
   \<and> (\<not> ncatpair s \<longrightarrow>
        nFilterPair dbg f32_round s (Some r1) (Some r2) =
          bindE (nFilter dbg f32_round s r1) (\<lambda>filt1.
          bindE (nFilter dbg f32_round s r2) (\<lambda>filt2. Inr (filt1, filt2))))"
proof (intro conjI impI)
  assume cat: "ncatpair s"
  let ?maxns = "f32_round (nCeilConst s +
                  f32_round (nCeilLinear s * f32_round (real (length r1 + length r2))))"
  let ?p = "nFilterPair_loop f32_round ?maxns 0 (r1 @ r2) \<noteq> None"
  have res: "nFilterPair dbg f32_round s (Some r1) (Some r2) = Inr (?p, ?p)"
    using nFilterPair_cat[OF cat] by (simp add: Let_def)
  have chr: "count_Ns (r1 @ r2) \<le> 2 ^ 24 \<longrightarrow>
              (?p \<longleftrightarrow> never_exceeds ?maxns 0 (r1 @ r2)) \<and>
              (r1 @ r2 \<noteq> [] \<longrightarrow> (?p \<longleftrightarrow> real (count_Ns (r1 @ r2)) \<le> ?maxns))"
  proof (intro impI)
    assume small: "count_Ns (r1 @ r2) \<le> 2 ^ 24"
    from small have "0 + count_Ns (r1 @ r2) \<le> 2 ^ 24" by simp
    from nFilterPair_loop_exact[OF f32_exact_f32_round this]
    have a: "?p \<longleftrightarrow> never_exceeds ?maxns 0 (r1 @ r2)" by simp
    have b: "r1 @ r2 \<noteq> [] \<longrightarrow> (?p \<longleftrightarrow> real (count_Ns (r1 @ r2)) \<le> ?maxns)"
      using a never_exceeds_total[of "r1 @ r2" ?maxns 0] by simp
    from a b show "(?p \<longleftrightarrow> never_exceeds ?maxns 0 (r1 @ r2)) \<and>
              (r1 @ r2 \<noteq> [] \<longrightarrow> (?p \<longleftrightarrow> real (count_Ns (r1 @ r2)) \<le> ?maxns))" by blast
  qed
  from res chr show "\<exists>p. nFilterPair dbg f32_round s (Some r1) (Some r2) = Inr (p, p) \<and>
           (count_Ns (r1 @ r2) \<le> 2 ^ 24 \<longrightarrow>
              (p \<longleftrightarrow> never_exceeds ?maxns 0 (r1 @ r2)) \<and>
              (r1 @ r2 \<noteq> [] \<longrightarrow> (p \<longleftrightarrow> real (count_Ns (r1 @ r2)) \<le> ?maxns)))"
    by blast
next
  assume "\<not> ncatpair s"
  then show "nFilterPair dbg f32_round s (Some r1) (Some r2) =
          bindE (nFilter dbg f32_round s r1) (\<lambda>filt1.
          bindE (nFilter dbg f32_round s r2) (\<lambda>filt2. Inr (filt1, filt2)))"
    by (rule nFilterPair_nocat)
qed

text \<open>
  Mates of 8 bases under the example scheme, the first with 4 Ns, the second with none:
  concatenated, the ceiling is \<open>2 + 0.125 * 16 = 4\<close> and both mates pass; filtered one by
  one, the ceiling is \<open>2 + 0.125 * 8 = 3\<close> and the first mate is rejected. With a fifth N
  in the first mate the concatenated pair is rejected.
\<close>

theorem nFilterPair_flags_witness:
  "ncatpair scoring_ex
   \<and> count_Ns ([4, 4, 4, 4, 0, 0, 0, 0] @ [0, 0, 0, 0, 0, 0, 0, 0]) \<le> 2 ^ 24
   \<and> [4, 4, 4, 4, 0, 0, 0, 0] @ [0, 0, 0, 0, 0, 0, 0, 0] \<noteq> ([] :: 8 word list)
   \<and> f32_round (nCeilConst scoring_ex + f32_round (nCeilLinear scoring_ex *
        f32_round (real (length [4 :: 8 word, 4, 4, 4, 0, 0, 0, 0] +
                         length [0 :: 8 word, 0, 0, 0, 0, 0, 0, 0])))) = 4
   \<and> nFilterPair True f32_round scoring_ex
        (Some [4, 4, 4, 4, 0, 0, 0, 0]) (Some [0, 0, 0, 0, 0, 0, 0, 0]) = Inr (True, True)
   \<and> count_Ns ([4, 4, 4, 4, 4, 0, 0, 0] @ [0, 0, 0, 0, 0, 0, 0, 0]) \<le> 2 ^ 24
   \<and> [4, 4, 4, 4, 4, 0, 0, 0] @ [0, 0, 0, 0, 0, 0, 0, 0] \<noteq> ([] :: 8 word list)
   \<and> nFilterPair True f32_round scoring_ex
        (Some [4, 4, 4, 4, 4, 0, 0, 0]) (Some [0, 0, 0, 0, 0, 0, 0, 0]) = Inr (False, False)
   \<and> \<not> ncatpair (scoring_ex\<lparr>ncatpair := False\<rparr>)
   \<and> nFilterPair True f32_round (scoring_ex\<lparr>ncatpair := False\<rparr>)
        (Some [4, 4, 4, 4, 0, 0, 0, 0]) (Some [0, 0, 0, 0, 0, 0, 0, 0]) = Inr (False, True)"
proof -
  let ?r1 = "[4, 4, 4, 4, 0, 0, 0, 0] :: 8 word list"
  let ?r1' = "[4, 4, 4, 4, 4, 0, 0, 0] :: 8 word list"
  let ?r2 = "[0, 0, 0, 0, 0, 0, 0, 0] :: 8 word list"
  let ?s' = "scoring_ex\<lparr>ncatpair := False\<rparr>"
  have cat: "ncatpair scoring_ex" by (simp add: scoring_ex_def)
  have small: "count_Ns (?r1 @ ?r2) \<le> 2 ^ 24" and small': "count_Ns (?r1' @ ?r2) \<le> 2 ^ 24"
    by simp_all
  have ne: "?r1 @ ?r2 \<noteq> []" and ne': "?r1' @ ?r2 \<noteq> []" by simp_all
  have ceil: "f32_round (nCeilConst scoring_ex + f32_round (nCeilLinear scoring_ex *
        f32_round (real (length ?r1 + length ?r2)))) = 4"
    by (simp add: scoring_ex_def f32_round_numeral)
  have ceil': "f32_round (nCeilConst scoring_ex + f32_round (nCeilLinear scoring_ex *
        f32_round (real (length ?r1' + length ?r2)))) = 4"
    by (simp add: scoring_ex_def f32_round_numeral)
  from nFilterPair_flags[of scoring_ex True ?r1 ?r2] cat small ne
  obtain p where res: "nFilterPair True f32_round scoring_ex (Some ?r1) (Some ?r2) = Inr (p, p)"
    and chr: "p \<longleftrightarrow> real (count_Ns (?r1 @ ?r2)) \<le>
        f32_round (nCeilConst scoring_ex + f32_round (nCeilLinear scoring_ex *
          f32_round (real (length ?r1 + length ?r2))))"
    by metis
  from chr have p unfolding ceil by simp
  with res have pass: "nFilterPair True f32_round scoring_ex (Some ?r1) (Some ?r2) = Inr (True, True)"
    by simp
  from nFilterPair_flags[of scoring_ex True ?r1' ?r2] cat small' ne'
  obtain q where res': "nFilterPair True f32_round scoring_ex (Some ?r1') (Some ?r2) = Inr (q, q)"
    and chr': "q \<longleftrightarrow> real (count_Ns (?r1' @ ?r2)) \<le>
        f32_round (nCeilConst scoring_ex + f32_round (nCeilLinear scoring_ex *
          f32_round (real (length ?r1' + length ?r2))))"
    by metis
  from chr' have "\<not> q" unfolding ceil' by simp
  with res' have fail: "nFilterPair True f32_round scoring_ex (Some ?r1') (Some ?r2) = Inr (False, False)"
    by simp
  have nocat: "\<not> ncatpair ?s'" by simp
  have m1: "nFilter_maxns f32_round ?s' (length ?r1) = 3"
    and m2: "nFilter_maxns f32_round ?s' (length ?r2) = 3"
    by (simp_all add: nFilter_maxns_def scoring_ex_def f32_eval)
  have n1: "nFilter True f32_round ?s' ?r1 = Inr False"
    unfolding nFilter_def Let_def m1
    by (simp add: assertE_def f32_add_def f32_round_numeral f32_round_1)
  have n2: "nFilter True f32_round ?s' ?r2 = Inr True"
    unfolding nFilter_def Let_def m2 by (simp add: assertE_def)
  from nFilterPair_flags[of ?s' True ?r1 ?r2] nocat
  have "nFilterPair True f32_round ?s' (Some ?r1) (Some ?r2) =
          bindE (nFilter True f32_round ?s' ?r1) (\<lambda>filt1.
          bindE (nFilter True f32_round ?s' ?r2) (\<lambda>filt2. Inr (filt1, filt2)))"
    by blast
  then have one: "nFilterPair True f32_round ?s' (Some ?r1) (Some ?r2) = Inr (False, True)"
    unfolding n1 n2 by (simp add: bindE_def)
  from cat small ne ceil pass small' ne' fail nocat one show ?thesis by blast
qed

text \<open>
  C5. The claim: for every pair of non-null reads with \<open>ncatpair\<close>, both mates pass if and
  only if the total number of Ns never exceeds the combined ceiling. On the code this fails
  twice, because the ceiling is a \<open>float\<close> and the counter is converted to one. Mates of
  \<open>2^24\<close> Ns and of one N pass the ceiling \<open>2^24 + 0 * len\<close>: the total \<open>2^24 + 1\<close> is
  converted to \<open>2^24\<close>. And mates of 7 Ns and of 3 other bases pass the ceiling
  \<open>0 + 0.7f * len\<close>, whose value \<open>6.99999988...\<close> the total 7 exceeds: the \<open>float\<close>
  product is rounded to 7.
\<close>

theorem nFilterPair_differs_from_ceiling:
  "ncatpair scoring_sat
   \<and> nFilterPair True f32_round scoring_sat (Some mate_sat) (Some [4]) = Inr (True, True)
   \<and> count_Ns (mate_sat @ [4]) = 16777217
   \<and> nCeilConst scoring_sat + nCeilLinear scoring_sat * real (length mate_sat + length [4 :: 8 word])
       = 16777216
   \<and> f32_round (nCeilConst scoring_sat + f32_round (nCeilLinear scoring_sat *
        f32_round (real (length mate_sat + length [4 :: 8 word])))) = 16777216
   \<and> ncatpair scoring_tenths
   \<and> nFilterPair True f32_round scoring_tenths (Some [4, 4, 4, 4, 4, 4, 4]) (Some [0, 0, 0]) = Inr (True, True)
   \<and> count_Ns ([4, 4, 4, 4, 4, 4, 4] @ [0, 0, 0]) = 7
   \<and> nCeilConst scoring_tenths + nCeilLinear scoring_tenths *
        real (length [4 :: 8 word, 4, 4, 4, 4, 4, 4] + length [0 :: 8 word, 0, 0]) < 7"
proof -
  have cat: "ncatpair scoring_sat" "ncatpair scoring_tenths"
    by (simp_all add: scoring_sat_def scoring_tenths_def scoring_ex_def)
  have m: "nFilterPair_maxns f32_round scoring_sat n1 n2 = 16777216" for n1 n2
    by (simp add: nFilterPair_maxns_def scoring_sat_def scoring_ex_def f32_eval)
  have "nFilterPair_loop f32_round 16777216 0 mate_sat =
          (if never_exceeds 16777216 0 mate_sat then Some (0 + count_Ns mate_sat) else None)"
    by (rule nFilterPair_loop_exact[OF f32_exact_f32_round]) (simp add: count_Ns_mate_sat)
  then have l1: "nFilterPair_loop f32_round 16777216 0 mate_sat = Some 16777216"
    by (simp add: never_exceeds_total[OF mate_sat_nonempty] count_Ns_mate_sat)
  have a: "nFilterPair True f32_round scoring_sat (Some mate_sat) (Some [4]) = Inr (True, True)"
    using cat unfolding nFilterPair_def Let_def m by (simp add: l1 f32_of_size_def f32_round_saturates)
  have b: "nCeilConst scoring_sat + nCeilLinear scoring_sat * real (length mate_sat + length [4 :: 8 word])
       = 16777216"
    by (simp add: scoring_sat_def scoring_ex_def)
  have b': "f32_round (nCeilConst scoring_sat + f32_round (nCeilLinear scoring_sat *
        f32_round (real (length mate_sat + length [4 :: 8 word])))) = 16777216"
    by (simp add: scoring_sat_def scoring_ex_def f32_round_0 f32_round_numeral)
  have c: "nFilterPair True f32_round scoring_tenths (Some [4, 4, 4, 4, 4, 4, 4]) (Some [0, 0, 0])
             = Inr (True, True)"
    using nFilterPair_cat[OF cat(2), of True f32_round "[4, 4, 4, 4, 4, 4, 4]" "[0, 0, 0]"]
    by (simp add: scoring_tenths_def scoring_ex_def f32_round_numeral f32_round_0 f32_round_1
        f32_round_seven_tenths_normal f32_of_size_def Let_def)
  have d: "nCeilConst scoring_tenths + nCeilLinear scoring_tenths *
        real (length [4 :: 8 word, 4, 4, 4, 4, 4, 4] + length [0 :: 8 word, 0, 0]) < 7"
    by (simp add: scoring_tenths_def scoring_ex_def)
  from cat a b b' c d show ?thesis by (simp add: count_Ns_append count_Ns_mate_sat)
qed

section \<open>Reading a matrix element\<close>

lemma vec_bytes_nth:
  assumes "16 * i + 16 \<le> length buf" and "l < 16"
  shows "vec_bytes buf i ! l = buf ! (16 * i + l)"
  using assms by (simp add: vec_bytes_def)

lemma ceil_div_covers:
  assumes w: "0 < (w::nat)"
  shows "n \<le> ((n + (w - 1)) div w) * w"
proof -
  have "n + (w - 1) < ((n + (w - 1)) div w) * w + w"
    using w by (metis div_mult_mod_eq add_less_cancel_left mod_less_divisor)
  with w show ?thesis by linarith
qed

lemma striped_lane_bound:
  assumes w: "0 < wperv m" and S: "nvecrow m = (nrow m + (wperv m - 1)) div wperv m"
    and r: "row < nrow m"
  shows "0 < nvecrow m" and "row div nvecrow m < wperv m" and "row mod nvecrow m < nvecrow m"
proof -
  have cov: "nrow m \<le> nvecrow m * wperv m" using ceil_div_covers[OF w, of "nrow m"] S by simp
  with r have lt: "row < nvecrow m * wperv m" by simp
  then show pos: "0 < nvecrow m" by (cases "nvecrow m") simp_all
  from lt show "row div nvecrow m < wperv m"
    by (simp add: less_mult_imp_div_less mult.commute)
  from pos show "row mod nvecrow m < nvecrow m" by simp
qed

lemma quartet_in_buffer:
  assumes v: "v < S" and c: "col < nc" and s: "slot < 3"
  shows "quartet_vec S col v slot < nc * (S * 4)"
proof -
  have "col * S + v < (col + 1) * S" using v by simp
  also have "\<dots> \<le> nc * S" using c by (intro mult_le_mono1) simp
  finally have "col * S + v + 1 \<le> nc * S" by simp
  then have "(col * S + v + 1) * 4 \<le> nc * S * 4" by simp
  then show ?thesis using s by (simp add: quartet_vec_def algebra_simps)
qed

text \<open>
  C9. In a matrix laid out as \<open>init\<close> leaves it, for \<open>row < nrow\<close>, \<open>col < ncol\<close> and a
  quartet slot \<open>mat < 3\<close>, \<open>elt\<close> returns the lane \<open>row / S\<close> of the vector at striped
  index \<open>row mod S\<close>, slot \<open>mat\<close>, of column \<open>col\<close>, where \<open>S = nvecrow\<close>: an unsigned
  8-bit lane when \<open>wperv = 16\<close> and a signed 16-bit lane when \<open>wperv = 8\<close>. The lane lies
  inside that vector and the vector inside the buffer.
\<close>

theorem elt_striped:
  assumes ok: "layout_ok m" and r: "row < nrow m" and c: "col < ncol m" and mt: "mat < 3"
  shows "(let (v, lane) = striped_pos (nvecrow m) row;
              vi = quartet_vec (nvecrow m) col v mat
          in v < nvecrow m \<and> lane < wperv m \<and> 16 * vi + 16 \<le> length (bufal m) \<and>
             elt dbg m row col mat =
               Inr (if wperv m = 16 then lane_u8 (vec_bytes (bufal m) vi) lane
                    else lane_i16 (vec_bytes (bufal m) vi) lane))"
proof -
  let ?S = "nvecrow m"
  let ?v = "row mod ?S" and ?lane = "row div ?S"
  let ?vi = "quartet_vec ?S col ?v mat"
  have w: "wperv m = 8 \<or> wperv m = 16" and ini: "inited m"
    and S: "?S = (nrow m + (wperv m - 1)) div wperv m"
    and cs: "colstride m = ?S * 4" and rs: "rowstride m = 4"
    and len: "16 * (ncol m * colstride m) \<le> length (bufal m)"
    using ok unfolding layout_ok_def by blast+
  from w have wpos: "0 < wperv m" by auto
  note b = striped_lane_bound[OF wpos S r]
  from quartet_in_buffer[OF b(3) c mt] have "?vi + 1 \<le> ncol m * (?S * 4)" by simp
  then have "16 * (?vi + 1) \<le> 16 * (ncol m * (?S * 4))" by (rule mult_le_mono2)
  with len cs have inbuf: "16 * ?vi + 16 \<le> length (bufal m)" by simp
  have vi: "col * colstride m + ?v * rowstride m + mat = ?vi"
    by (simp add: quartet_vec_def cs rs algebra_simps)
  have e: "elt dbg m row col mat =
          (if wperv m = 16 then read_u8 (bufal m) (16 * ?vi + ?lane)
           else assertE dbg (8 = wperv m) (read_i16 (bufal m) (16 * ?vi + 2 * ?lane)))"
    using ini r c mt b(1) unfolding elt_def Let_def vi assertE_def by simp
  have "elt dbg m row col mat =
          Inr (if wperv m = 16 then lane_u8 (vec_bytes (bufal m) ?vi) ?lane
               else lane_i16 (vec_bytes (bufal m) ?vi) ?lane)"
  proof (cases "wperv m = 16")
    case True
    with b(2) have l16: "?lane < 16" by simp
    with inbuf have "16 * ?vi + ?lane < length (bufal m)" by simp
    then show ?thesis
      unfolding e using True vec_bytes_nth[OF inbuf l16]
      by (simp add: read_u8_def lane_u8_def)
  next
    case False
    with w have w8: "wperv m = 8" by simp
    with b(2) have l8: "?lane < 8" by simp
    then have i0: "2 * ?lane < 16" and i1: "2 * ?lane + 1 < 16" by simp_all
    from inbuf i1 have "16 * ?vi + 2 * ?lane + 1 < length (bufal m)" by simp
    then show ?thesis
      unfolding e using w8 vec_bytes_nth[OF inbuf i0] vec_bytes_nth[OF inbuf i1]
      by (simp add: assertE_def read_i16_def lane_i16_def add.assoc)
  qed
  with b inbuf show ?thesis by (simp add: striped_pos_def Let_def)
qed

text \<open>
  Row 3 of the 20-row matrix: striped index 1, lane 1, which in slot H of column 0 is the
  byte at offset \<open>16 * 6 + 1 = 97\<close>.
\<close>

theorem elt_striped_witness:
  "layout_ok mat_striped \<and> 3 < nrow mat_striped \<and> 0 < ncol mat_striped \<and> SSEMatrix_H < 3
   \<and> striped_pos (nvecrow mat_striped) 3 = (1, 1)
   \<and> quartet_vec (nvecrow mat_striped) 0 1 SSEMatrix_H = 6
   \<and> elt True mat_striped 3 0 SSEMatrix_H = Inr 97"
proof -
  have ok: "layout_ok mat_striped" by (simp add: layout_ok_def mat_striped_def)
  have r: "3 < nrow mat_striped" and c: "0 < ncol mat_striped" and mt: "SSEMatrix_H < 3"
    by (simp_all add: mat_striped_def SSEMatrix_H_def)
  have sp: "striped_pos (nvecrow mat_striped) 3 = (1, 1)"
    by (simp add: striped_pos_def mat_striped_def)
  have qv: "quartet_vec (nvecrow mat_striped) 0 1 SSEMatrix_H = 6"
    by (simp add: quartet_vec_def mat_striped_def SSEMatrix_H_def)
  have w: "wperv mat_striped = 16" by (simp add: mat_striped_def)
  have byte: "lane_u8 (vec_bytes (bufal mat_striped) 6) 1 = 97"
    by (simp add: lane_u8_def vec_bytes_def mat_striped_def)
  from elt_striped[OF ok r c mt, of True]
  have "elt True mat_striped 3 0 SSEMatrix_H = Inr (lane_u8 (vec_bytes (bufal mat_striped) 6) 1)"
    unfolding sp Let_def prod.case qv w by simp
  with ok r c mt sp qv byte show ?thesis by simp
qed

section \<open>Properties of the cell analysis\<close>

lemma reportedThrough_bufal: "reportedThrough (m\<lparr>bufal := b\<rparr>) row col = reportedThrough m row col"
  by (simp add: reportedThrough_def mask_at_def Let_def)

text \<open>
  C7. When the reported-through bit of the cell is set, \<open>analyzeCell\<close> returns at once:
  \<open>reportedThru\<close> is true, \<open>canMoveThru\<close> is false, the other outputs keep the values
  they had, and the matrix with its mask words and the random generator are returned as
  they were. The result is the same whatever the score buffer holds and whatever the
  generator would draw.
\<close>

theorem analyzeCell_reported_through:
  assumes rt: "reportedThrough m row col = Inr True"
  shows "analyzeCell dbg ro m row col ct refc readc readq sc offsetsc floorsc rand out =
           Inr (out\<lparr>out_reportedThru := True, out_canMoveThru := False\<rparr>, m, rand)
       \<and> (\<forall>b ro'. analyzeCell dbg ro' (m\<lparr>bufal := b\<rparr>) row col ct refc readc readq sc offsetsc floorsc rand out =
           Inr (out\<lparr>out_reportedThru := True, out_canMoveThru := False\<rparr>, m\<lparr>bufal := b\<rparr>, rand))"
  using rt by (simp add: analyzeCell_def bindE_def reportedThrough_bufal)

text \<open>
  Cell \<open>(1, 1)\<close> of the 2 by 2 matrix with its reported-through bit set.
\<close>

theorem analyzeCell_reported_through_witness:
  "reportedThrough (mat_ex\<lparr>masks := [0, 0, 0, 1]\<rparr>) 1 1 = Inr True
   \<and> analyzeCell True rand_ex (mat_ex\<lparr>masks := [0, 0, 0, 1]\<rparr>) 1 1 SSEMatrix_H 0 0 73 scoring_ex 0 0 () out_ex
       = Inr (out_ex\<lparr>out_reportedThru := True, out_canMoveThru := False\<rparr>,
              mat_ex\<lparr>masks := [0, 0, 0, 1]\<rparr>, ())"
proof -
  have rt: "reportedThrough (mat_ex\<lparr>masks := [0, 0, 0, 1]\<rparr>) 1 1 = Inr True"
    by (simp add: reportedThrough_def mask_at_def bindE_def mat_ex_def)
  from analyzeCell_reported_through[OF rt, where dbg = True and ro = rand_ex and ct = SSEMatrix_H
      and refc = 0 and readc = 0 and readq = 73 and sc = scoring_ex and offsetsc = 0
      and floorsc = 0 and rand = "()" and out = out_ex]
  have "analyzeCell True rand_ex (mat_ex\<lparr>masks := [0, 0, 0, 1]\<rparr>) 1 1 SSEMatrix_H 0 0 73 scoring_ex 0 0 () out_ex
       = Inr (out_ex\<lparr>out_reportedThru := True, out_canMoveThru := False\<rparr>,
              mat_ex\<lparr>masks := [0, 0, 0, 1]\<rparr>, ())"
    by (rule conjunct1)
  with rt show ?thesis by (rule conjI)
qed

lemma alts5_0: "alts5 0 = 0"
  by (simp add: alts5_def)



lemma H_choose_empty:
  "H_choose dbg ro m row col rand out ga origMask 0 =
     Inr (out\<lparr>out_empty := True, out_canMoveThru := (origMask = 0)\<rparr>, m, rand)"
  by (simp add: H_choose_def alts5_0 H_transition_def bindE_def)


lemmas cell_eval =
  cell_origMask_def cell_mask_def H_origMask_def H_mask_def H_predMask_def
  helt_def felt_def eelt_def elt_def read_u8_def assertE_def bindE_def
  gapsAllowed_def size_t_sub_def size_t_of_int_def Let_def
  isHMaskSet_def reportedThrough_def mask_at_def hMaskField_def
  SSEMatrix_E_def SSEMatrix_F_def SSEMatrix_H_def
  mat_ex_def mat_diag_def scoring_ex_def replicate_4


subsection \<open>The gap barrier\<close>

lemma gapsAllowed_iff:
  assumes g0: "0 \<le> gapbar sc" and g1: "gapbar sc < 2 ^ 64" and r: "row < nrow m"
  shows "gapsAllowed sc m row \<longleftrightarrow> gapbar sc \<le> int row \<and> gapbar sc \<le> int (nrow m - row - 1)"
proof -
  from g0 g1 have c: "size_t_of_int (gapbar sc) = nat (gapbar sc)"
    by (simp add: size_t_of_int_def)
  from r have s: "size_t_sub (size_t_sub (nrow m) row) 1 = nrow m - row - 1"
    by (simp add: size_t_sub_def)
  have "gapsAllowed sc m row \<longleftrightarrow> \<not> (row < nat (gapbar sc) \<or> nrow m - row - 1 < nat (gapbar sc))"
    unfolding gapsAllowed_def Let_def c s ..
  then show ?thesis using g0 by linarith
qed

lemma H_predMask_barrier:
  "H_predMask False sc floorsc sc_cur sc_f_up sc_h_up sc_h_left sc_e_left sc_h_upleft sc_diag = push_bit 4 1
   \<or> H_predMask False sc floorsc sc_cur sc_f_up sc_h_up sc_h_left sc_e_left sc_h_upleft sc_diag = 0"
  by (simp add: H_predMask_def)

lemma bindE_Inr_iff: "bindE x f = Inr y \<longleftrightarrow> (\<exists>v. x = Inr v \<and> f v = Inr y)"
  by (cases x) (simp_all add: bindE_def)

lemma assertE_Inr_iff: "assertE dbg c k = Inr y \<longleftrightarrow> (dbg \<longrightarrow> c) \<and> k = Inr y"
  by (auto simp add: assertE_def)

lemma H_origMask_barrier:
  assumes "H_origMask dbg m row col ct refc readc readq sc offsetsc floorsc False = Inr om"
  shows "om = push_bit 4 1 \<or> om = 0"
proof -
  from assms obtain a b c d e f g where "om = H_predMask False sc floorsc a b c d e f g"
    by (auto simp add: H_origMask_def bindE_Inr_iff assertE_Inr_iff Let_def)
  then show ?thesis using H_predMask_barrier by simp
qed

lemma cell_index_bound: "row < nr \<Longrightarrow> col < (nc::nat) \<Longrightarrow> row * nc + col < nr * nc"
proof -
  assume r: "row < nr" and c: "col < nc"
  have "row * nc + col < (row + 1) * nc" using c by simp
  also have "\<dots> \<le> nr * nc" using r by (intro mult_le_mono1) simp
  finally show ?thesis .
qed

lemma cell_index_inj:
  assumes "col < (nc::nat)" "col' < nc" "row * nc + col = row' * nc + col'"
  shows "row = row' \<and> col = col'"
proof -
  from assms have "(row * nc + col) div nc = (row' * nc + col') div nc" by simp
  with assms(1,2) have r: "row = row'" by simp
  with assms(3) show ?thesis by simp
qed

lemma hMaskField_0 [simp]: "hMaskField 0 = 0"
  by (simp add: hMaskField_def)

lemma initMasks_barrier_ok: "barrier_masks_ok sc (initMasks m)"
  by (auto simp add: barrier_masks_ok_def initMasks_def cell_index_bound)

lemma and_16_cases: "(x::int) AND 16 = 16 \<or> x AND 16 = 0"
proof (cases "bit x 4")
  case True
  then have "x AND 16 = 16" by (intro bit_eqI) (auto simp add: bit_simps bit_16)
  then show ?thesis ..
next
  case False
  then have "x AND 16 = 0" by (intro bit_eqI) (auto simp add: bit_simps bit_16)
  then show ?thesis ..
qed

lemma hMaskField_hMaskWord_0: "hMaskField (hMaskWord w 0) = 16 \<or> hMaskField (hMaskWord w 0) = 0"
  using hMaskField_hMaskWord[of w 0] and_16_cases[of "hMaskField w"] by simp

lemma H_mask_barrier:
  assumes inv: "barrier_masks_ok sc m" and r: "row < nrow m" and c: "col < ncol m"
    and nga: "\<not> gapsAllowed sc m row" and om: "om = push_bit 4 1 \<or> om = 0"
    and mk: "H_mask m row col om = Inr msk"
  shows "msk = push_bit 4 1 \<or> msk = 0"
proof -
  from inv r c nga
  have f: "hMaskField (masks m ! (row * ncol m + col)) = push_bit 4 1
           \<or> hMaskField (masks m ! (row * ncol m + col)) = 0"
    unfolding barrier_masks_ok_def by blast
  from mk have "msk = om \<or> msk = hMaskField (masks m ! (row * ncol m + col))"
    by (auto simp add: H_mask_def isHMaskSet_def mask_at_def bindE_Inr_iff Let_def split: if_splits)
  with om f show ?thesis by auto
qed

lemma gapsAllowed_masks [simp]: "gapsAllowed sc (m\<lparr>masks := ms\<rparr>) row = gapsAllowed sc m row"
  by (simp add: gapsAllowed_def)

lemma mask_update_barrier_ok:
  assumes inv: "barrier_masks_ok sc m" and r: "row < nrow m" and c: "col < ncol m"
    and up: "mask_update m row col g = Inr m'"
    and new: "\<not> gapsAllowed sc m row \<longrightarrow>
                hMaskField (g (masks m ! (row * ncol m + col))) = push_bit 4 1
              \<or> hMaskField (g (masks m ! (row * ncol m + col))) = 0"
  shows "barrier_masks_ok sc m'"
proof -
  let ?i = "row * ncol m + col"
  from up have m': "m' = m\<lparr>masks := (masks m)[?i := g (masks m ! ?i)]\<rparr>" and il: "?i < length (masks m)"
    by (auto simp add: mask_update_def Let_def split: if_splits)
  from inv have len: "length (masks m) = nrow m * ncol m"
    and old: "\<And>row' col'. row' < nrow m \<Longrightarrow> col' < ncol m \<Longrightarrow> \<not> gapsAllowed sc m row' \<Longrightarrow>
        hMaskField (masks m ! (row' * ncol m + col')) = push_bit 4 1
      \<or> hMaskField (masks m ! (row' * ncol m + col')) = 0"
    unfolding barrier_masks_ok_def by blast+
  show ?thesis
    unfolding barrier_masks_ok_def
  proof (intro conjI allI impI)
    show "length (masks m') = nrow m' * ncol m'" using len by (simp add: m')
  next
    fix row' col'
    assume r': "row' < nrow m'" and c': "col' < ncol m'" and nga: "\<not> gapsAllowed sc m' row'"
    from r' c' nga have r2: "row' < nrow m" and c2: "col' < ncol m" and nga2: "\<not> gapsAllowed sc m row'"
      by (simp_all add: m')
    show "hMaskField (masks m' ! (row' * ncol m' + col')) = push_bit 4 1
        \<or> hMaskField (masks m' ! (row' * ncol m' + col')) = 0"
    proof (cases "row' * ncol m + col' = ?i")
      case True
      with cell_index_inj[OF c2 c True] have "row' = row" by simp
      with nga2 new have "hMaskField (g (masks m ! ?i)) = push_bit 4 1 \<or> hMaskField (g (masks m ! ?i)) = 0"
        by simp
      with True il show ?thesis by (simp add: m')
    next
      case False
      with old[OF r2 c2 nga2] show ?thesis by (simp add: m')
    qed
  qed
qed

lemma take_bit_2_small: "k = 0 \<or> k = 1 \<or> k = 2 \<Longrightarrow> take_bit 2 (k::int) = k"
  by auto

lemma E_choose_masks:
  assumes "E_choose dbg ro m row col rand out origMask msk = Inr (out', m', rand')"
  shows "m' = m \<or> (\<exists>k. (k = 0 \<or> k = 1 \<or> k = 2) \<and> mask_update m row col (\<lambda>w. eMaskWord w k) = Inr m')"
  using assms
  by (auto simp add: E_choose_def eMaskSet_def bindE_Inr_iff assertE_Inr_iff
      split: if_splits prod.splits)

lemma F_choose_masks:
  assumes "F_choose dbg ro m row col rand out origMask msk = Inr (out', m', rand')"
  shows "m' = m \<or> (\<exists>k. (k = 0 \<or> k = 1 \<or> k = 2) \<and> mask_update m row col (\<lambda>w. fMaskWord w k) = Inr m')"
  using assms
  by (auto simp add: F_choose_def fMaskSet_def bindE_Inr_iff assertE_Inr_iff
      split: if_splits prod.splits)

lemma alts5_16: "alts5 16 = 1"
  by (simp add: alts5_def bit_16)

lemma firsts5_16: "firsts5 16 = 4"
  by (simp add: firsts5_def bit_16)

lemma H_choose_barrier:
  assumes b: "msk = push_bit 4 1 \<or> msk = 0"
    and ch: "H_choose dbg ro m row col rand out ga origMask msk = Inr (out', m', rand')"
  shows "(m' = m \<or> mask_update m row col (\<lambda>w. hMaskWord w 0) = Inr m')
       \<and> (out_empty out' \<or> out_cur out' = SW_BT_OALL_DIAG)"
proof (cases "msk = 0")
  case True
  with ch show ?thesis by (auto simp add: H_choose_empty)
next
  case False
  with b have "msk = 16" by simp
  with ch show ?thesis
    by (auto simp add: H_choose_def alts5_16 firsts5_16 H_transition_def hMaskSet_def
        bindE_Inr_iff assertE_Inr_iff)
qed

lemma H_choose_masks:
  assumes "H_choose dbg ro m row col rand out ga origMask msk = Inr (out', m', rand')"
  shows "m' = m \<or> (\<exists>k. mask_update m row col (\<lambda>w. hMaskWord w k) = Inr m')"
  using assms
  by (auto simp add: H_choose_def hMaskSet_def bindE_Inr_iff assertE_Inr_iff Let_def
      split: if_splits prod.splits)

lemma analyzeCell_Inr:
  assumes "analyzeCell dbg ro m row col ct refc readc readq sc offsetsc floorsc rand out = Inr (out', m', rand')"
  shows "m' = m
       \<or> (reportedThrough m row col = Inr False \<and> row \<noteq> 0 \<and>
          (\<exists>out2.
             (ct = SSEMatrix_E \<and>
              analyzeCell_E dbg ro m row col sc offsetsc floorsc rand out2 (gapsAllowed sc m row)
                = Inr (out', m', rand')) \<or>
             (ct = SSEMatrix_F \<and>
              analyzeCell_F dbg ro m row col sc offsetsc floorsc rand out2 (gapsAllowed sc m row)
                = Inr (out', m', rand')) \<or>
             (analyzeCell_H dbg ro m row col ct refc readc readq sc offsetsc floorsc rand out2
                (gapsAllowed sc m row) = Inr (out', m', rand'))))"
  using assms
  by (auto simp add: analyzeCell_def bindE_Inr_iff assertE_Inr_iff Let_def split: if_splits)

lemma analyzeCell_E_masks:
  assumes "analyzeCell_E dbg ro m row col sc offsetsc floorsc rand out ga = Inr (out', m', rand')"
  shows "m' = m \<or> (\<exists>k. (k = 0 \<or> k = 1 \<or> k = 2) \<and> mask_update m row col (\<lambda>w. eMaskWord w k) = Inr m')"
proof -
  from assms obtain origMask msk where "E_choose dbg ro m row col rand out origMask msk = Inr (out', m', rand')"
    by (auto simp add: analyzeCell_E_def bindE_Inr_iff assertE_Inr_iff)
  then show ?thesis by (rule E_choose_masks)
qed

lemma analyzeCell_F_masks:
  assumes "analyzeCell_F dbg ro m row col sc offsetsc floorsc rand out ga = Inr (out', m', rand')"
  shows "m' = m \<or> (\<exists>k. (k = 0 \<or> k = 1 \<or> k = 2) \<and> mask_update m row col (\<lambda>w. fMaskWord w k) = Inr m')"
proof -
  from assms obtain origMask msk where "F_choose dbg ro m row col rand out origMask msk = Inr (out', m', rand')"
    by (auto simp add: analyzeCell_F_def bindE_Inr_iff assertE_Inr_iff)
  then show ?thesis by (rule F_choose_masks)
qed

lemma analyzeCell_H_masks:
  assumes "analyzeCell_H dbg ro m row col ct refc readc readq sc offsetsc floorsc rand out ga = Inr (out', m', rand')"
  shows "m' = m \<or> (\<exists>k. mask_update m row col (\<lambda>w. hMaskWord w k) = Inr m')"
proof -
  from assms obtain origMask msk where "H_choose dbg ro m row col rand out ga origMask msk = Inr (out', m', rand')"
    by (auto simp add: analyzeCell_H_def bindE_Inr_iff assertE_Inr_iff)
  then show ?thesis by (rule H_choose_masks)
qed

lemma analyzeCell_H_barrier:
  assumes inv: "barrier_masks_ok sc m" and r: "row < nrow m" and c: "col < ncol m"
    and nga: "\<not> gapsAllowed sc m row"
    and run: "analyzeCell_H dbg ro m row col ct refc readc readq sc offsetsc floorsc rand out
                (gapsAllowed sc m row) = Inr (out', m', rand')"
  shows "(m' = m \<or> mask_update m row col (\<lambda>w. hMaskWord w 0) = Inr m')
       \<and> (out_empty out' \<or> out_cur out' = SW_BT_OALL_DIAG)"
proof -
  from run nga obtain origMask msk where
    om: "H_origMask dbg m row col ct refc readc readq sc offsetsc floorsc False = Inr origMask"
    and mk: "H_mask m row col origMask = Inr msk"
    and ch: "H_choose dbg ro m row col rand out False origMask msk = Inr (out', m', rand')"
    by (auto simp add: analyzeCell_H_def bindE_Inr_iff assertE_Inr_iff)
  from H_mask_barrier[OF inv r c nga H_origMask_barrier[OF om] mk]
  have "msk = push_bit 4 1 \<or> msk = 0" .
  from H_choose_barrier[OF this ch] show ?thesis .
qed

lemma analyzeCell_barrier_ok:
  assumes inv: "barrier_masks_ok sc m" and r: "row < nrow m" and c: "col < ncol m"
    and run: "analyzeCell dbg ro m row col ct refc readc readq sc offsetsc floorsc rand out = Inr (out', m', rand')"
  shows "barrier_masks_ok sc m'"
proof -
  let ?w = "masks m ! (row * ncol m + col)"
  from inv r c have old: "\<not> gapsAllowed sc m row \<longrightarrow> hMaskField ?w = push_bit 4 1 \<or> hMaskField ?w = 0"
    unfolding barrier_masks_ok_def by blast
  from analyzeCell_Inr[OF run]
  consider (same) "m' = m"
    | (E) out2 where "analyzeCell_E dbg ro m row col sc offsetsc floorsc rand out2 (gapsAllowed sc m row)
                = Inr (out', m', rand')"
    | (F) out2 where "analyzeCell_F dbg ro m row col sc offsetsc floorsc rand out2 (gapsAllowed sc m row)
                = Inr (out', m', rand')"
    | (H) out2 where "analyzeCell_H dbg ro m row col ct refc readc readq sc offsetsc floorsc rand out2
                (gapsAllowed sc m row) = Inr (out', m', rand')"
    by blast
  then show ?thesis
  proof cases
    case same
    with inv show ?thesis by simp
  next
    case E
    from analyzeCell_E_masks[OF E]
    consider "m' = m"
      | k where "k = 0 \<or> k = 1 \<or> k = 2" "mask_update m row col (\<lambda>w. eMaskWord w k) = Inr m'"
      by blast
    then show ?thesis
    proof cases
      case 1
      with inv show ?thesis by simp
    next
      case (2 k)
      note k = 2(1) and up = 2(2)
      from hMaskField_eMaskWord[of ?w k] take_bit_2_small[OF k]
      have "hMaskField (eMaskWord ?w k) = hMaskField ?w" by simp
      with old show ?thesis by (intro mask_update_barrier_ok[OF inv r c up]) simp
    qed
  next
    case F
    from analyzeCell_F_masks[OF F]
    consider "m' = m"
      | k where "k = 0 \<or> k = 1 \<or> k = 2" "mask_update m row col (\<lambda>w. fMaskWord w k) = Inr m'"
      by blast
    then show ?thesis
    proof cases
      case 1
      with inv show ?thesis by simp
    next
      case (2 k)
      note k = 2(1) and up = 2(2)
      from hMaskField_fMaskWord[of ?w k] take_bit_2_small[OF k]
      have "hMaskField (fMaskWord ?w k) = hMaskField ?w" by simp
      with old show ?thesis by (intro mask_update_barrier_ok[OF inv r c up]) simp
    qed
  next
    case H
    show ?thesis
    proof (cases "gapsAllowed sc m row")
      case True
      from analyzeCell_H_masks[OF H] show ?thesis
      proof (elim disjE exE)
        assume "m' = m" with inv show ?thesis by simp
      next
        fix k assume up: "mask_update m row col (\<lambda>w. hMaskWord w k) = Inr m'"
        from True show ?thesis by (intro mask_update_barrier_ok[OF inv r c up]) simp
      qed
    next
      case False
      from analyzeCell_H_barrier[OF inv r c False H]
      have "m' = m \<or> mask_update m row col (\<lambda>w. hMaskWord w 0) = Inr m'" by blast
      then show ?thesis
      proof
        assume "m' = m" with inv show ?thesis by simp
      next
        assume up: "mask_update m row col (\<lambda>w. hMaskWord w 0) = Inr m'"
        from hMaskField_hMaskWord_0[of ?w] show ?thesis
          by (intro mask_update_barrier_ok[OF inv r c up]) auto
      qed
    qed
  qed
qed

lemma hMaskField_or_assign_1: "hMaskField (or_assign w (push_bit 0 1)) = hMaskField w"
  by (rule bit_eqI) (auto simp add: hMaskField_def or_assign_def bit_simps bit_consts)

lemma setReportedThrough_barrier_ok:
  assumes inv: "barrier_masks_ok sc m" and r: "row < nrow m" and c: "col < ncol m"
    and up: "setReportedThrough m row col = Inr m'"
  shows "barrier_masks_ok sc m'"
proof -
  let ?w = "masks m ! (row * ncol m + col)"
  from inv r c have "\<not> gapsAllowed sc m row \<longrightarrow> hMaskField ?w = push_bit 4 1 \<or> hMaskField ?w = 0"
    unfolding barrier_masks_ok_def by blast
  then have "\<not> gapsAllowed sc m row \<longrightarrow>
      hMaskField (or_assign ?w (push_bit 0 1)) = push_bit 4 1
    \<or> hMaskField (or_assign ?w (push_bit 0 1)) = 0"
    by (simp only: hMaskField_or_assign_1)
  with up show ?thesis
    unfolding setReportedThrough_def by (rule mask_update_barrier_ok[OF inv r c])
qed

lemma analyzeCell_H_branch:
  assumes nrt: "reportedThrough m row col = Inr False" and r0: "row \<noteq> 0"
    and ct: "ct \<noteq> SSEMatrix_E" "ct \<noteq> SSEMatrix_F"
    and run: "analyzeCell dbg ro m row col ct refc readc readq sc offsetsc floorsc rand out = Inr (out', m', rand')"
  shows "\<exists>out2. analyzeCell_H dbg ro m row col ct refc readc readq sc offsetsc floorsc rand out2
       (gapsAllowed sc m row) = Inr (out', m', rand')"
proof -
  have e: "analyzeCell dbg ro m row col ct refc readc readq sc offsetsc floorsc rand out =
        bindE (analyzeCell_H dbg ro m row col ct refc readc readq sc offsetsc floorsc rand
                 (out\<lparr>out_reportedThru := False, out_canMoveThru := True, out_empty := False\<rparr>)
                 (gapsAllowed sc m row))
            (\<lambda>(out', m', rand').
               assertE dbg (\<not> out_empty out' \<or> \<not> out_canMoveThru out' \<or> ct = SSEMatrix_H)
                 (Inr (out', m', rand')))"
    using nrt r0 ct by (simp add: analyzeCell_def bindE_def assertE_def Let_def)
  from run[unfolded e] show ?thesis
    by (auto simp add: bindE_Inr_iff assertE_Inr_iff)
qed


lemma barrier_part_b:
  assumes nga: "\<not> gapsAllowed sc m row"
    and om: "H_origMask dbg m row col ct refc readc readq sc offsetsc floorsc (gapsAllowed sc m row) = Inr om"
  shows "om = push_bit 4 1 \<or> om = 0"
proof -
  from om have "H_origMask dbg m row col ct refc readc readq sc offsetsc floorsc False = Inr om"
    by (simp only: nga)
  then show ?thesis by (rule H_origMask_barrier)
qed

lemma barrier_part_e:
  assumes r: "row < nrow m" and c: "col < ncol m"
    and inv: "barrier_masks_ok sc m" and nga: "\<not> gapsAllowed sc m row"
    and om: "H_origMask dbg m row col ct refc readc readq sc offsetsc floorsc (gapsAllowed sc m row) = Inr om"
    and mk: "H_mask m row col om = Inr msk"
  shows "msk = push_bit 4 1 \<or> msk = 0"
  by (rule H_mask_barrier[OF inv r c nga barrier_part_b[OF nga om] mk])

lemma barrier_part_f:
  assumes r: "row < nrow m" and c: "col < ncol m"
    and inv: "barrier_masks_ok sc m" and nga: "\<not> gapsAllowed sc m row"
    and ct: "ct \<noteq> SSEMatrix_E" "ct \<noteq> SSEMatrix_F"
    and nrt: "reportedThrough m row col = Inr False" and r0: "row \<noteq> 0"
    and run: "analyzeCell dbg ro m row col ct refc readc readq sc offsetsc floorsc rand out = Inr (out', m', rand')"
  shows "out_empty out' \<or> out_cur out' = SW_BT_OALL_DIAG"
proof -
  from analyzeCell_H_branch[OF nrt r0 ct run] obtain out2 where
    "analyzeCell_H dbg ro m row col ct refc readc readq sc offsetsc floorsc rand out2
       (gapsAllowed sc m row) = Inr (out', m', rand')" ..
  from analyzeCell_H_barrier[OF inv r c nga this] show ?thesis by (rule conjunct2)
qed


text \<open>
  C8. For a cell \<open>(row, col)\<close> of the matrix and a gap barrier \<open>gapbar \<ge> 0\<close>: gaps are
  allowed exactly when \<open>row \<ge> gapbar\<close> and \<open>nrow - row - 1 \<ge> gapbar\<close>. When they are not
  allowed, the mask that the H branch computes from the scores is the diagonal bit or
  empty. That every H mask stored in a barrier row is the diagonal-only mask or empty
  holds after \<open>initMasks\<close> and is kept by every call of \<open>analyzeCell\<close> that returns
  and by \<open>setReportedThrough\<close>;
  while it holds, the mask that the H branch works with in a barrier row is the
  diagonal-only mask or empty (the assertion on it holds), and the analysis of an H cell
  there, when it returns a transition, returns the diagonal one: never a gap open or a
  gap extension.
\<close>

theorem analyzeCell_gap_barrier:
  assumes g0: "0 \<le> gapbar sc" and g1: "gapbar sc < 2 ^ 64"
    and r: "row < nrow m" and c: "col < ncol m"
  shows "(gapsAllowed sc m row \<longleftrightarrow> gapbar sc \<le> int row \<and> gapbar sc \<le> int (nrow m - row - 1))
       \<and> (\<not> gapsAllowed sc m row \<longrightarrow>
            (\<forall>om. H_origMask dbg m row col ct refc readc readq sc offsetsc floorsc
                    (gapsAllowed sc m row) = Inr om \<longrightarrow> om = push_bit 4 1 \<or> om = 0))
       \<and> barrier_masks_ok sc (initMasks m)
       \<and> (barrier_masks_ok sc m \<longrightarrow>
            (\<forall>out' m' rand'.
               analyzeCell dbg ro m row col ct refc readc readq sc offsetsc floorsc rand out
                 = Inr (out', m', rand') \<longrightarrow> barrier_masks_ok sc m'))
       \<and> (barrier_masks_ok sc m \<longrightarrow>
            (\<forall>m'. setReportedThrough m row col = Inr m' \<longrightarrow> barrier_masks_ok sc m'))
       \<and> (barrier_masks_ok sc m \<and> \<not> gapsAllowed sc m row \<longrightarrow>
            (\<forall>om msk. H_origMask dbg m row col ct refc readc readq sc offsetsc floorsc
                        (gapsAllowed sc m row) = Inr om \<and> H_mask m row col om = Inr msk \<longrightarrow>
                      msk = push_bit 4 1 \<or> msk = 0))
       \<and> (barrier_masks_ok sc m \<and> \<not> gapsAllowed sc m row \<and> ct \<noteq> SSEMatrix_E \<and> ct \<noteq> SSEMatrix_F
            \<and> reportedThrough m row col = Inr False \<and> row \<noteq> 0 \<longrightarrow>
            (\<forall>out' m' rand'.
               analyzeCell dbg ro m row col ct refc readc readq sc offsetsc floorsc rand out
                 = Inr (out', m', rand') \<longrightarrow>
               out_empty out' \<or> out_cur out' = SW_BT_OALL_DIAG))"
proof -
  have a: "gapsAllowed sc m row \<longleftrightarrow> gapbar sc \<le> int row \<and> gapbar sc \<le> int (nrow m - row - 1)"
    by (rule gapsAllowed_iff[OF g0 g1 r])
  have b: "\<not> gapsAllowed sc m row \<longrightarrow>
            (\<forall>om. H_origMask dbg m row col ct refc readc readq sc offsetsc floorsc
                    (gapsAllowed sc m row) = Inr om \<longrightarrow> om = push_bit 4 1 \<or> om = 0)"
  proof (intro impI allI)
    fix om
    assume "\<not> gapsAllowed sc m row"
      and "H_origMask dbg m row col ct refc readc readq sc offsetsc floorsc (gapsAllowed sc m row) = Inr om"
    then show "om = push_bit 4 1 \<or> om = 0" by (rule barrier_part_b)
  qed
  have c1: "barrier_masks_ok sc (initMasks m)" by (rule initMasks_barrier_ok)
  have d: "barrier_masks_ok sc m \<longrightarrow>
            (\<forall>out' m' rand'.
               analyzeCell dbg ro m row col ct refc readc readq sc offsetsc floorsc rand out
                 = Inr (out', m', rand') \<longrightarrow> barrier_masks_ok sc m')"
  proof (intro impI allI)
    fix out' m' rand'
    assume "barrier_masks_ok sc m"
      and "analyzeCell dbg ro m row col ct refc readc readq sc offsetsc floorsc rand out = Inr (out', m', rand')"
    then show "barrier_masks_ok sc m'" by (rule analyzeCell_barrier_ok[OF _ r c])
  qed
  have d2: "barrier_masks_ok sc m \<longrightarrow>
            (\<forall>m'. setReportedThrough m row col = Inr m' \<longrightarrow> barrier_masks_ok sc m')"
  proof (intro impI allI)
    fix m'
    assume "barrier_masks_ok sc m" and "setReportedThrough m row col = Inr m'"
    then show "barrier_masks_ok sc m'" by (rule setReportedThrough_barrier_ok[OF _ r c])
  qed
  have e: "barrier_masks_ok sc m \<and> \<not> gapsAllowed sc m row \<longrightarrow>
            (\<forall>om msk. H_origMask dbg m row col ct refc readc readq sc offsetsc floorsc
                        (gapsAllowed sc m row) = Inr om \<and> H_mask m row col om = Inr msk \<longrightarrow>
                      msk = push_bit 4 1 \<or> msk = 0)"
  proof (intro impI allI, elim conjE)
    fix om msk
    assume "barrier_masks_ok sc m" and "\<not> gapsAllowed sc m row"
      and "H_origMask dbg m row col ct refc readc readq sc offsetsc floorsc (gapsAllowed sc m row) = Inr om"
      and "H_mask m row col om = Inr msk"
    then show "msk = push_bit 4 1 \<or> msk = 0" by (rule barrier_part_e[OF r c])
  qed
  have f: "barrier_masks_ok sc m \<and> \<not> gapsAllowed sc m row \<and> ct \<noteq> SSEMatrix_E \<and> ct \<noteq> SSEMatrix_F
            \<and> reportedThrough m row col = Inr False \<and> row \<noteq> 0 \<longrightarrow>
            (\<forall>out' m' rand'.
               analyzeCell dbg ro m row col ct refc readc readq sc offsetsc floorsc rand out
                 = Inr (out', m', rand') \<longrightarrow>
               out_empty out' \<or> out_cur out' = SW_BT_OALL_DIAG)"
  proof (intro impI allI, elim conjE)
    fix out' m' rand'
    assume "barrier_masks_ok sc m" and "\<not> gapsAllowed sc m row"
      and "ct \<noteq> SSEMatrix_E" and "ct \<noteq> SSEMatrix_F"
      and "reportedThrough m row col = Inr False" and "row \<noteq> 0"
      and "analyzeCell dbg ro m row col ct refc readc readq sc offsetsc floorsc rand out = Inr (out', m', rand')"
    then show "out_empty out' \<or> out_cur out' = SW_BT_OALL_DIAG" by (rule barrier_part_f[OF r c])
  qed
  from a b c1 d d2 e f show ?thesis by (intro conjI)
qed

lemmas choose_eval =
  analyzeCell_def analyzeCell_H_def H_choose_def H_transition_def alts5_16 firsts5_16
  hMaskSet_def mask_update_def hMaskWord_def and_assign_def or_assign_def rand_ex_def out_ex_def

text \<open>
  Cell \<open>(1, 1)\<close> of the 2 by 2 matrix lies within the barrier of 5 rows; its score is
  explained by the diagonal, which the analysis returns, storing the empty mask.
\<close>

theorem analyzeCell_gap_barrier_witness:
  "0 \<le> gapbar scoring_ex \<and> gapbar scoring_ex < 2 ^ 64 \<and> 1 < nrow mat_diag \<and> 1 < ncol mat_diag
   \<and> \<not> gapsAllowed scoring_ex mat_diag 1
   \<and> barrier_masks_ok scoring_ex mat_diag
   \<and> SSEMatrix_H \<noteq> SSEMatrix_E \<and> SSEMatrix_H \<noteq> SSEMatrix_F
   \<and> reportedThrough mat_diag 1 1 = Inr False \<and> (1::nat) \<noteq> 0
   \<and> H_origMask True mat_diag 1 1 SSEMatrix_H 0 0 73 scoring_ex 10 0 (gapsAllowed scoring_ex mat_diag 1)
       = Inr 16
   \<and> H_mask mat_diag 1 1 16 = Inr 16
   \<and> analyzeCell True rand_ex mat_diag 1 1 SSEMatrix_H 0 0 73 scoring_ex 10 0 ()
         (out_ex\<lparr>out_cur := SW_BT_RDGAP_EXTEND\<rparr>)
       = Inr (out_ex\<lparr>out_cur := SW_BT_OALL_DIAG, out_canMoveThru := True\<rparr>,
              mat_diag\<lparr>masks := [0, 0, 0, 2]\<rparr>, ())
   \<and> barrier_masks_ok scoring_ex (mat_diag\<lparr>masks := [0, 0, 0, 2]\<rparr>)"
proof -
  have g0: "0 \<le> gapbar scoring_ex" and g1: "gapbar scoring_ex < 2 ^ 64"
    by (simp_all add: scoring_ex_def)
  have r: "1 < nrow mat_diag" and c: "1 < ncol mat_diag"
    by (simp_all add: mat_diag_def mat_ex_def)
  have ct: "SSEMatrix_H \<noteq> SSEMatrix_E" "SSEMatrix_H \<noteq> SSEMatrix_F"
    by (simp_all add: SSEMatrix_E_def SSEMatrix_F_def SSEMatrix_H_def)
  have nrt: "reportedThrough mat_diag 1 1 = Inr False" by (simp add: cell_eval)
  have r0: "(1::nat) \<noteq> 0" by simp
  have im: "initMasks mat_diag = mat_diag"
    by (simp add: initMasks_def mat_diag_def mat_ex_def)
  have run: "analyzeCell True rand_ex mat_diag 1 1 SSEMatrix_H 0 0 73 scoring_ex 10 0 ()
         (out_ex\<lparr>out_cur := SW_BT_RDGAP_EXTEND\<rparr>)
       = Inr (out_ex\<lparr>out_cur := SW_BT_OALL_DIAG, out_canMoveThru := True\<rparr>,
              mat_diag\<lparr>masks := [0, 0, 0, 2]\<rparr>, ())"
    by (simp add: choose_eval cell_eval)
  note T = analyzeCell_gap_barrier[OF g0 g1 r c, where dbg = True and ro = rand_ex
      and ct = SSEMatrix_H and refc = 0 and readc = 0 and readq = 73 and offsetsc = 10
      and floorsc = 0 and rand = "()" and out = "out_ex\<lparr>out_cur := SW_BT_RDGAP_EXTEND\<rparr>"]
  from T have nga: "\<not> gapsAllowed scoring_ex mat_diag 1"
    by (simp add: scoring_ex_def)
  from T have inv: "barrier_masks_ok scoring_ex mat_diag" by (simp only: im)
  have om: "H_origMask True mat_diag 1 1 SSEMatrix_H 0 0 73 scoring_ex 10 0
              (gapsAllowed scoring_ex mat_diag 1) = Inr 16"
    by (simp add: cell_eval)
  have mk: "H_mask mat_diag 1 1 16 = Inr 16" by (simp add: cell_eval)
  from T inv run have inv': "barrier_masks_ok scoring_ex (mat_diag\<lparr>masks := [0, 0, 0, 2]\<rparr>)"
    by blast
  from g0 g1 r c nga inv ct nrt r0 om mk run inv' show ?thesis by (intro conjI)
qed

end
